theory Spec2Isabelle
  imports Main
begin

section \<open>Bytes and the library functions the minifier calls\<close>

text \<open>
  A Go byte slice is a list of 8-bit characters. The functions of this section belong to
  the Go standard library (\<open>bytes\<close>) and to the \<open>parse\<close> package the minifier imports;
  they are given here by their documented contracts.
\<close>

type_synonym bytes = "char list"

definition dquote :: char where
  "dquote = CHR 0x22"

definition squote :: char where
  "squote = CHR 0x27"

text \<open>parse.IsWhitespace: space, tab, newline, carriage return, form feed.\<close>

definition IsWhitespace :: "char \<Rightarrow> bool" where
  "IsWhitespace c = (c = CHR 0x20 \<or> c = CHR 0x09 \<or> c = CHR 0x0A \<or> c = CHR 0x0D \<or> c = CHR 0x0C)"

text \<open>parse.IsAllWhitespace: every byte is whitespace (true of the empty slice).\<close>

definition IsAllWhitespace :: "bytes \<Rightarrow> bool" where
  "IsAllWhitespace b = list_all IsWhitespace b"

text \<open>parse.Trim: drops the bytes satisfying \<open>f\<close> from both ends.\<close>

definition Trim :: "bytes \<Rightarrow> (char \<Rightarrow> bool) \<Rightarrow> bytes" where
  "Trim b f = rev (dropWhile f (rev (dropWhile f b)))"

text \<open>
  parse.ReplaceMultiple: every maximal run of bytes satisfying \<open>f\<close> becomes the single
  byte \<open>r\<close>. The flag is the source's \<open>prevMatch\<close>.
\<close>

fun ReplaceMultiple_from :: "bool \<Rightarrow> (char \<Rightarrow> bool) \<Rightarrow> char \<Rightarrow> bytes \<Rightarrow> bytes" where
  "ReplaceMultiple_from prevMatch f r [] = []"
| "ReplaceMultiple_from prevMatch f r (c # cs) =
     (if f c then
        (if prevMatch then ReplaceMultiple_from True f r cs
         else r # ReplaceMultiple_from True f r cs)
      else c # ReplaceMultiple_from False f r cs)"

definition ReplaceMultiple :: "bytes \<Rightarrow> (char \<Rightarrow> bool) \<Rightarrow> char \<Rightarrow> bytes" where
  "ReplaceMultiple b f r = ReplaceMultiple_from False f r b"

text \<open>
  parse.ToLower: ASCII upper-case letters become lower case. The Go function writes into
  its argument; where the argument is read again afterwards the model says so.
\<close>

definition ToLower_byte :: "char \<Rightarrow> char" where
  "ToLower_byte c =
     (let n = (of_char c :: nat) in if 65 \<le> n \<and> n \<le> 90 then char_of (n + 32) else c)"

definition ToLower :: "bytes \<Rightarrow> bytes" where
  "ToLower b = map ToLower_byte b"

text \<open>parse.Equal: the two slices hold the same bytes.\<close>

definition Equal :: "bytes \<Rightarrow> bytes \<Rightarrow> bool" where
  "Equal a b = (a = b)"

text \<open>
  parse.EqualCaseInsensitive: \<open>s\<close> matches the lower-case target when ASCII case is
  ignored.
\<close>

definition EqualCaseInsensitive :: "bytes \<Rightarrow> bytes \<Rightarrow> bool" where
  "EqualCaseInsensitive s targetLower = (ToLower s = targetLower)"

text \<open>bytes.HasPrefix and bytes.HasSuffix.\<close>

definition HasPrefix :: "bytes \<Rightarrow> bytes \<Rightarrow> bool" where
  "HasPrefix s p = (length p \<le> length s \<and> take (length p) s = p)"

definition HasSuffix :: "bytes \<Rightarrow> bytes \<Rightarrow> bool" where
  "HasSuffix s p = (length p \<le> length s \<and> drop (length s - length p) s = p)"

text \<open>
  bytes.Replace with \<open>n = -1\<close>: every non-overlapping occurrence of \<open>old\<close>, from the left,
  becomes \<open>new\<close>. The minifier only calls it with a non-empty \<open>old\<close>; for an empty one
  Go inserts \<open>new\<close> before every byte and at the end.
\<close>

function Replace :: "bytes \<Rightarrow> bytes \<Rightarrow> bytes \<Rightarrow> bytes" where
  "Replace s old new =
     (if old = [] then new @ concat (map (\<lambda>c. c # new) s)
      else if s = [] then []
      else if HasPrefix s old then new @ Replace (drop (length old) s) old new
      else hd s # Replace (tl s) old new)"
  by pat_completeness auto
termination
  by (relation "measure (\<lambda>(s, old, new). length s)") auto

declare Replace.simps [simp del]

text \<open>
  A Go slice expression \<open>b[lo:hi]\<close> panics unless \<open>lo \<le> hi \<le> len(b)\<close>; \<open>None\<close> is the
  panic.
\<close>

definition slice :: "bytes \<Rightarrow> nat \<Rightarrow> nat \<Rightarrow> bytes option" where
  "slice b lo hi = (if lo \<le> hi \<and> hi \<le> length b then Some (take (hi - lo) (drop lo b)) else None)"

text \<open>
  Go's \<open>copy(t[j:], src)\<close>: copies \<open>min(len(t) - j, len(src))\<close> bytes, never more than
  the destination holds, and returns how many; \<open>t[j:]\<close> itself panics when \<open>j > len(t)\<close>.
\<close>

definition copy_at :: "bytes \<Rightarrow> nat \<Rightarrow> bytes \<Rightarrow> (bytes \<times> nat) option" where
  "copy_at t j src =
     (if j \<le> length t then
        (let n = min (length t - j) (length src)
         in Some (take j t @ take n src @ drop (j + n) t, n))
      else None)"

section \<open>The quoting engine\<close>

definition escapedSingleQuoteBytes :: bytes where
  "escapedSingleQuoteBytes = [CHR ''&'', CHR ''#'', CHR ''3'', CHR ''9'', CHR '';'']"

definition escapedDoubleQuoteBytes :: bytes where
  "escapedDoubleQuoteBytes = [CHR ''&'', CHR ''#'', CHR ''3'', CHR ''4'', CHR '';'']"

text \<open>The loop \<open>for i < len(b) && b[i] == '0' { i++ }\<close> of isAtQuoteEntity.\<close>

function skipZeros :: "bytes \<Rightarrow> nat \<Rightarrow> nat" where
  "skipZeros b i = (if i < length b \<and> b ! i = CHR ''0'' then skipZeros b (Suc i) else i)"
  by pat_completeness auto
termination
  by (relation "measure (\<lambda>(b, i). length b - i)") auto

declare skipZeros.simps [simp del]

text \<open>
  isAtQuoteEntity: \<open>b\<close> starts at an ampersand. The result is the quote character the
  entity stands for and the length of the entity; \<open>None\<close> is the source's \<open>ok = false\<close>.
\<close>

definition isAtQuoteEntity :: "bytes \<Rightarrow> (char \<times> nat) option" where
  "isAtQuoteEntity b =
     (if length b < 5 then None
      else if b ! 1 = CHR ''#'' then
        (if b ! 2 = CHR ''x'' then
           (let i = skipZeros b 3 in
            if i + 2 < length b \<and> b ! i = CHR ''2'' \<and> b ! (i + 2) = CHR '';'' then
              (if b ! (i + 1) = CHR ''2'' then Some (dquote, i + 3)
               else if b ! (i + 1) = CHR ''7'' then Some (squote, i + 3)
               else None)
            else None)
         else
           (let i = skipZeros b 2 in
            if i + 2 < length b \<and> b ! i = CHR ''3'' \<and> b ! (i + 2) = CHR '';'' then
              (if b ! (i + 1) = CHR ''4'' then Some (dquote, i + 3)
               else if b ! (i + 1) = CHR ''9'' then Some (squote, i + 3)
               else None)
            else None))
      else if length b \<ge> 6 \<and> b ! 5 = CHR '';'' then
        (if EqualCaseInsensitive (take 4 (drop 1 b)) ''quot'' then Some (dquote, 6)
         else if EqualCaseInsensitive (take 4 (drop 1 b)) ''apos'' then Some (squote, 6)
         else None)
      else None)"

text \<open>
  The first loop of escapeAttrVal, over the bytes from index \<open>i\<close> on: it counts single
  and double quotes, literal or as entities, and clears \<open>unquoted\<close> at a byte that forbids
  the unquoted form. The state is \<open>(singles, doubles, unquoted)\<close>.
\<close>

function countQuotes :: "bytes \<Rightarrow> nat \<Rightarrow> nat \<times> nat \<times> bool \<Rightarrow> nat \<times> nat \<times> bool" where
  "countQuotes b i (singles, doubles, unquoted) =
     (if i < length b then
        (let c = b ! i in
         if c = CHR ''&'' then
           (case isAtQuoteEntity (drop i b) of
              Some (quote, n) \<Rightarrow>
                (if quote = dquote then countQuotes b (Suc i) (singles, doubles + 1, False)
                 else countQuotes b (Suc i) (singles + 1, doubles, False))
            | None \<Rightarrow> countQuotes b (Suc i) (singles, doubles, unquoted))
         else if c = dquote then countQuotes b (Suc i) (singles, doubles + 1, False)
         else if c = squote then countQuotes b (Suc i) (singles + 1, doubles, False)
         else if unquoted \<and> (c = CHR 0x60 \<or> c = CHR ''<'' \<or> c = CHR ''='' \<or> c = CHR ''>''
                   \<or> IsWhitespace c)
           then countQuotes b (Suc i) (singles, doubles, False)
         else countQuotes b (Suc i) (singles, doubles, unquoted))
      else (singles, doubles, unquoted))"
  by pat_completeness auto
termination
  by (relation "measure (\<lambda>(b, i, s). length b - i)") auto

declare countQuotes.simps [simp del]

text \<open>
  The second loop of escapeAttrVal, from index \<open>i\<close> on. The state is the buffer \<open>t\<close>, the
  write position \<open>j\<close> and \<open>start\<close>, the first byte of \<open>b\<close> not yet copied. \<open>None\<close> is a
  panic of a slice expression.
\<close>

function escapeLoop ::
  "char \<Rightarrow> bytes \<Rightarrow> bytes \<Rightarrow> nat \<Rightarrow> bytes \<times> nat \<times> nat \<Rightarrow> (bytes \<times> nat \<times> nat) option" where
  "escapeLoop quote escapedQuote b i (t, j, start) =
     (if i < length b then
        (let c = b ! i in
         if c = CHR ''&'' then
           (case isAtQuoteEntity (drop i b) of
              Some (entityQuote, n) \<Rightarrow>
                (case slice b start i of
                   None \<Rightarrow> None
                 | Some seg \<Rightarrow>
                     (case copy_at t j seg of
                        None \<Rightarrow> None
                      | Some (t1, k1) \<Rightarrow>
                          (case copy_at t1 (j + k1)
                                  (if entityQuote \<noteq> quote then [entityQuote] else escapedQuote) of
                             None \<Rightarrow> None
                           | Some (t2, k2) \<Rightarrow>
                               escapeLoop quote escapedQuote b (Suc i) (t2, j + k1 + k2, i + n))))
            | None \<Rightarrow> escapeLoop quote escapedQuote b (Suc i) (t, j, start))
         else if c = quote then
           (case slice b start i of
              None \<Rightarrow> None
            | Some seg \<Rightarrow>
                (case copy_at t j seg of
                   None \<Rightarrow> None
                 | Some (t1, k1) \<Rightarrow>
                     (case copy_at t1 (j + k1) escapedQuote of
                        None \<Rightarrow> None
                      | Some (t2, k2) \<Rightarrow>
                          escapeLoop quote escapedQuote b (Suc i) (t2, j + k1 + k2, i + 1))))
         else escapeLoop quote escapedQuote b (Suc i) (t, j, start))
      else Some (t, j, start))"
  by pat_completeness auto
termination
  by (relation "measure (\<lambda>(q, e, b, i, s). length b - i)") auto

declare escapeLoop.simps [simp del]

text \<open>
  escapeAttrVal. \<open>buf\<close> is the scratch buffer the caller keeps between calls, with its
  capacity as its length; the result is the buffer afterwards and the returned bytes.
  \<open>None\<close> is a run-time panic: an index or a slice bound out of range.
\<close>

definition escapeAttrVal :: "bytes \<Rightarrow> bytes \<Rightarrow> bytes \<Rightarrow> (bytes \<times> bytes) option" where
  "escapeAttrVal buf orig b =
     (case countQuotes b 0 (0, 0, True) of (singles, doubles, unquoted) \<Rightarrow>
        if unquoted then Some (buf, b)
        else if singles = 0 \<and> doubles = 0 \<and> length orig = length b + 2 then Some (buf, orig)
        else
          (let quote = (if doubles > singles then squote else dquote);
               escapedQuote = (if doubles > singles then escapedSingleQuoteBytes
                               else escapedDoubleQuoteBytes);
               buf1 = (if length b + 2 > length buf then replicate (length b + 2) (CHR 0x00)
                       else buf);
               t = take (length b + 2) buf1;
               t0 = t[0 := quote]
           in case escapeLoop quote escapedQuote b 0 (t0, 1, 0) of
                None \<Rightarrow> None
              | Some (t1, j1, start) \<Rightarrow>
                  (case slice b start (length b) of
                     None \<Rightarrow> None
                   | Some seg \<Rightarrow>
                       (case copy_at t1 j1 seg of
                          None \<Rightarrow> None
                        | Some (t2, k) \<Rightarrow>
                            (if j1 + k < length t2 then
                               (let t3 = t2[j1 + k := quote]
                                in Some (t3 @ drop (length b + 2) buf1, take (j1 + k + 1) t3))
                             else None)))))"

section \<open>Tokens, classification tables and collaborators\<close>

text \<open>
  html.Hash identifies a known tag or attribute name; the zero value, \<open>NoHash\<close>, is an
  unknown name. The constructors are the names Minify mentions (\<open>html.A\<close>, \<open>html.P\<close> and
  \<open>html.Id\<close> carry a suffix here); every other known name is an \<open>OtherHash\<close>.
\<close>

datatype (plugins only: code) Hash = NoHash | A_tag | Accept | Action | Body | Button | Charset
  | Class | Clear | Codetype | Colgroup | Colspan | Content | Dd | Dir | Dt | Enctype | Form
  | Frameborder | Head | Href | Html | Http_Equiv | Id_attr | Iframe | Input | Lang | Language
  | Li | Link | Math | Media | Meta | Method | Name | Object | Optgroup | Option | P_tag | Param
  | Rb | Rel | Rowspan | Rp | Rt | Rtc | Script | Scrolling | Shape | Source | Span | Src | Style
  | Svg | Tbody | Td | Tfoot | Th | Thead | Title | Tr | Type | Value | Valuetype | OtherHash nat

text \<open>
  html.TokenType. \<open>OtherToken\<close> stands for every token type of the tokenizer that Minify
  does not name, such as the token that closes a start tag after its attributes.
\<close>

datatype TokenType = ErrorToken | CommentToken | DoctypeToken | StartTagToken | EndTagToken
  | AttributeToken | TextToken | OtherToken

text \<open>A nil \<open>Data\<close> is \<open>None\<close>: Minify marks a removed attribute with it.\<close>

record Token =
  TokenType :: TokenType
  Hash :: Hash
  Data :: "bytes option"
  AttrVal :: bytes

definition the_bytes :: "bytes option \<Rightarrow> bytes" where
  "the_bytes d = (case d of None \<Rightarrow> [] | Some b \<Rightarrow> b)"

definition errorToken :: Token where
  "errorToken = \<lparr>TokenType = ErrorToken, Hash = NoHash, Data = None, AttrVal = []\<rparr>"

text \<open>
  Modelled from the spec: the TokenBuffer (NewTokenBuffer, Shift, Peek) is not among the
  sources. The spec gives \<open>next()\<close>, which returns and consumes the next token, and
  \<open>peek(i)\<close>, which returns the token \<open>i\<close> positions ahead and consumes nothing. The
  buffer is the list of the tokens still to come, up to the end of the stream; at and
  past the end both operations give an Error token. Peek hands out a pointer into the
  buffer, so an assignment through it is an update of the list at that position; an
  assignment through a pointer to the Error token at the end is not recorded.
\<close>

definition Shift :: "Token list \<Rightarrow> Token \<times> Token list" where
  "Shift tb = (case tb of [] \<Rightarrow> (errorToken, []) | t # ts \<Rightarrow> (t, ts))"

definition Peek :: "Token list \<Rightarrow> nat \<Rightarrow> Token" where
  "Peek tb i = (if i < length tb then tb ! i else errorToken)"

definition assign :: "Token list \<Rightarrow> nat \<Rightarrow> (Token \<Rightarrow> Token) \<Rightarrow> Token list" where
  "assign tb k f = (if k < length tb then tb[k := f (tb ! k)] else tb)"

text \<open>
  Go errors. \<open>ErrNotExist\<close> is minify.ErrNotExist, the registry's answer when no minifier
  is registered for a media type. A \<open>fault\<close> ends Minify early: an error it returns, or a
  run-time panic.
\<close>

datatype error = ErrNotExist | Err nat

datatype fault = Failure error | Panic

text \<open>
  What Minify is given besides the tokens. \<open>Write\<close> is the sink \<open>w\<close>, with its state of
  type \<open>'w\<close>. \<open>MinifyM\<close> is the registry \<open>m.Minify\<close>: from a media type and the content
  to an error or to the bytes the selected minifier writes to its writer.
  \<open>NormalizeContentType\<close> is the function of that name of the parse package, as the
  bytes it returns. The six tables are those of the package, whose file is not among the
  sources.
\<close>

record 'w env =
  Write :: "'w \<Rightarrow> bytes \<Rightarrow> error + 'w"
  MinifyM :: "bytes \<Rightarrow> bytes \<Rightarrow> error + bytes"
  NormalizeContentType :: "bytes \<Rightarrow> bytes"
  inlineTagMap :: "Hash \<Rightarrow> bool"
  blockTagMap :: "Hash \<Rightarrow> bool"
  rawTagMap :: "Hash \<Rightarrow> bool"
  booleanAttrMap :: "Hash \<Rightarrow> bool"
  caseInsensitiveAttrMap :: "Hash \<Rightarrow> bool"
  urlAttrMap :: "Hash \<Rightarrow> bool"

text \<open>\<open>w.Write(b)\<close> followed by \<open>return err\<close> on an error.\<close>

definition wWrite :: "'w env \<Rightarrow> 'w \<Rightarrow> bytes \<Rightarrow> fault + 'w" where
  "wWrite env w b = (case Write env w b of Inl e \<Rightarrow> Inl (Failure e) | Inr w' \<Rightarrow> Inr w')"

text \<open>The local variables of Minify that live across tokens.\<close>

record State =
  rawTag :: Hash
  rawTagMediatype :: bytes
  precededBySpace :: bool
  defaultScriptType :: bytes
  defaultStyleType :: bytes
  defaultInlineStyleType :: bytes
  attrByteBuffer :: bytes
  attrIntBuffer :: "nat list"

definition initState :: State where
  "initState = \<lparr>rawTag = NoHash, rawTagMediatype = [], precededBySpace = True,
     defaultScriptType = ''text/javascript'', defaultStyleType = ''text/css'',
     defaultInlineStyleType = ''text/css;inline=1'',
     attrByteBuffer = replicate 64 (CHR 0x00), attrIntBuffer = replicate 4 0\<rparr>"

section \<open>Text tokens\<close>

text \<open>The media type of the text inside the open raw-text element.\<close>

definition mediatypeOf :: "State \<Rightarrow> bytes" where
  "mediatypeOf st =
     (if rawTag st = Iframe then ''text/html''
      else if length (rawTagMediatype st) > 0 then rawTagMediatype st
      else if rawTag st = Script then defaultScriptType st
      else if rawTag st = Style then defaultStyleType st
      else if rawTag st = Svg then ''image/svg+xml''
      else if rawTag st = Math then ''application/mathml+xml''
      else [])"

text \<open>
  "ignore CDATA in embedded HTML": the result is the sink and the content that goes on to
  the registry.
\<close>

definition cdataStrip :: "'w env \<Rightarrow> bytes \<Rightarrow> 'w \<Rightarrow> bytes \<Rightarrow> fault + ('w \<times> bytes)" where
  "cdataStrip env mediatype w data =
     (if mediatype = ''text/html'' then
        (let trimmedData = Trim data IsWhitespace in
         if length trimmedData > 12 \<and> take 9 trimmedData = ''<![CDATA[''
            \<and> drop (length trimmedData - 3) trimmedData = '']]>'' then
           (case wWrite env w ''<![CDATA['' of
              Inl f \<Rightarrow> Inl f
            | Inr w1 \<Rightarrow> Inr (w1, drop 9 trimmedData))
         else Inr (w, data))
      else Inr (w, data))"

text \<open>A text token while \<open>rawTag\<close> is set.\<close>

definition rawText :: "'w env \<Rightarrow> State \<Rightarrow> 'w \<Rightarrow> bytes \<Rightarrow> fault + 'w" where
  "rawText env st w data =
     (if rawTag st = Style \<or> rawTag st = Script \<or> rawTag st = Iframe \<or> rawTag st = Svg
         \<or> rawTag st = Math then
        (case cdataStrip env (mediatypeOf st) w data of
           Inl f \<Rightarrow> Inl f
         | Inr (w1, d) \<Rightarrow>
             (case MinifyM env (mediatypeOf st) d of
                Inl e \<Rightarrow> (if e = ErrNotExist then wWrite env w1 d else Inl (Failure e))
              | Inr out \<Rightarrow> wWrite env w1 out))
      else wWrite env w data)"

text \<open>
  The forward scan that decides whether the trailing space of a text token goes:
  \<open>True\<close> is the source's \<open>trim\<close>.
\<close>

function trimScan :: "'w env \<Rightarrow> Token list \<Rightarrow> nat \<Rightarrow> bool" where
  "trimScan env tb i =
     (let next = Peek tb i in
      if TokenType next = ErrorToken then True
      else if TokenType next = TextToken then
        (length (the_bytes (Data next)) > 0 \<and> IsWhitespace (the_bytes (Data next) ! 0))
      else if TokenType next = StartTagToken \<or> TokenType next = EndTagToken then
        (if \<not> inlineTagMap env (Hash next) then True
         else if TokenType next = StartTagToken then False
         else trimScan env tb (Suc i))
      else trimScan env tb (Suc i))"
  by pat_completeness auto
termination
  by (relation "measure (\<lambda>(env, tb, i). length tb - i)")
     (auto simp: Peek_def errorToken_def split: if_splits)

declare trimScan.simps [simp del]

text \<open>
  A text token outside a raw-text element: the collapsed bytes written, and the new
  \<open>precededBySpace\<close>.
\<close>

definition trimText :: "'w env \<Rightarrow> bool \<Rightarrow> Token list \<Rightarrow> bytes \<Rightarrow> bytes \<times> bool" where
  "trimText env pbs tb d =
     (let d1 = (if pbs \<and> d ! 0 = CHR 0x20 then drop 1 d else d) in
      if length d1 = 0 then (d1, True)
      else if d1 ! (length d1 - 1) = CHR 0x20 then
        (if trimScan env tb 0 then (take (length d1 - 1) d1, False) else (d1, True))
      else (d1, False))"

definition plainText :: "'w env \<Rightarrow> State \<Rightarrow> 'w \<Rightarrow> Token list \<Rightarrow> bytes \<Rightarrow> fault + (State \<times> 'w)" where
  "plainText env st w tb data =
     (let d = ReplaceMultiple data IsWhitespace (CHR 0x20) in
      if length d > 0 then
        (case trimText env (precededBySpace st) tb d of (d2, pbs) \<Rightarrow>
           (case wWrite env w d2 of
              Inl f \<Rightarrow> Inl f
            | Inr w' \<Rightarrow> Inr (st\<lparr>precededBySpace := pbs\<rparr>, w')))
      else Inr (st, w))"

definition textToken :: "'w env \<Rightarrow> State \<Rightarrow> 'w \<Rightarrow> Token list \<Rightarrow> Token \<Rightarrow> fault + (State \<times> 'w)" where
  "textToken env st w tb t =
     (if rawTag st \<noteq> NoHash then
        (case rawText env st w (the_bytes (Data t)) of
           Inl f \<Rightarrow> Inl f
         | Inr w' \<Rightarrow> Inr (st, w'))
      else plainText env st w tb (the_bytes (Data t)))"

section \<open>Comments\<close>

definition commentBytes :: "bytes \<Rightarrow> bytes" where
  "commentBytes data =
     (if HasPrefix data ''[if'' then ''<!--'' @ data @ ''-->''
      else if HasSuffix data ''--'' then ''<!'' @ data @ ''>''
      else [])"

section \<open>Attributes\<close>

text \<open>
  The surrounding quotes of a raw attribute value go, and the whitespace inside them at
  both ends. getAttributes and the loop that writes the attributes both do this.
\<close>

definition unwrapVal :: "bytes \<Rightarrow> bytes" where
  "unwrapVal v =
     (if length v > 1 \<and> (v ! 0 = dquote \<or> v ! 0 = squote)
      then Trim (take (length v - 2) (drop 1 v)) IsWhitespace
      else v)"

text \<open>
  The first loop of getAttributes: for every attribute token ahead, the slot of each hash
  it matches takes its position plus one. \<open>idx\<close> is the index buffer cut to the number
  of hashes; a slot no attribute matches keeps what it held.
\<close>

function scanAttributes :: "Token list \<Rightarrow> Hash list \<Rightarrow> nat \<Rightarrow> nat list \<Rightarrow> nat list" where
  "scanAttributes tb hashes i idx =
     (let t = Peek tb i in
      if TokenType t \<noteq> AttributeToken then idx
      else scanAttributes tb hashes (Suc i)
             (map (\<lambda>(hash, x). if Hash t = hash then i + 1 else x) (zip hashes idx)))"
  by pat_completeness auto
termination
  by (relation "measure (\<lambda>(tb, hashes, i, idx). length tb - i)")
     (auto simp: Peek_def errorToken_def split: if_splits)

declare scanAttributes.simps [simp del]

text \<open>
  The second loop of getAttributes: a slot above zero gives a pointer to the token at that
  position minus one, whose value is unwrapped in the buffer; a zero slot gives nil. A
  pointer is the position of its token in the buffer.
\<close>

fun fetchAttributes :: "Token list \<Rightarrow> nat list \<Rightarrow> Token list \<times> nat option list" where
  "fetchAttributes tb [] = (tb, [])"
| "fetchAttributes tb (i # idx) =
     (if i > 0 then
        (case fetchAttributes (assign tb (i - 1) (\<lambda>t. t\<lparr>AttrVal := unwrapVal (AttrVal t)\<rparr>)) idx of
           (tb', ps) \<Rightarrow> (tb', Some (i - 1) # ps))
      else
        (case fetchAttributes tb idx of (tb', ps) \<Rightarrow> (tb', None # ps)))"

text \<open>
  getAttributes. The index buffer belongs to Minify, which allocates it once, with four
  slots, and passes it to every call; the result is the buffer afterwards, the token
  buffer afterwards and the pointers, one for each hash.
\<close>

definition getAttributes ::
  "Token list \<Rightarrow> nat list \<Rightarrow> Hash list \<Rightarrow> nat list \<times> Token list \<times> nat option list" where
  "getAttributes tb attrIndexBuffer hashes =
     (let buf = (if length attrIndexBuffer < length hashes then replicate (length hashes) 0
                 else attrIndexBuffer);
          idx = scanAttributes tb hashes 0 (take (length hashes) buf)
      in case fetchAttributes tb idx of
           (tb', ps) \<Rightarrow> (idx @ drop (length hashes) buf, tb', ps))"

text \<open>The scheme \<open>http:\<close> or \<open>https:\<close> goes from the front of a URL.\<close>

definition stripScheme :: "bytes \<Rightarrow> bytes" where
  "stripScheme v =
     (if length v > 5 \<and> EqualCaseInsensitive (take 4 v) ''http'' then
        (if v ! 4 = CHR '':'' then drop 5 v
         else if (v ! 4 = CHR ''s'' \<or> v ! 4 = CHR ''S'') \<and> v ! 5 = CHR '':'' then drop 6 v
         else v)
      else v)"

text \<open>The rewriting of the attributes of an anchor.\<close>

definition rewriteA :: "Token list \<Rightarrow> nat option list \<Rightarrow> Token list" where
  "rewriteA tb attr =
     (let tb1 =
        (case attr ! 0 of
           None \<Rightarrow> tb
         | Some idp \<Rightarrow>
             (case attr ! 1 of
                None \<Rightarrow> tb
              | Some name \<Rightarrow>
                  (if Equal (AttrVal (Peek tb idp)) (AttrVal (Peek tb name))
                   then assign tb name (\<lambda>t. t\<lparr>Data := None\<rparr>)
                   else tb)))
      in
      if (case attr ! 2 of
            None \<Rightarrow> True
          | Some rel \<Rightarrow> \<not> EqualCaseInsensitive (AttrVal (Peek tb1 rel)) ''external'') then
        (case attr ! 3 of
           None \<Rightarrow> tb1
         | Some href \<Rightarrow> assign tb1 href (\<lambda>t. t\<lparr>AttrVal := stripScheme (AttrVal t)\<rparr>))
      else tb1)"

text \<open>The rewriting of the attributes of a meta tag, which may change the default types.\<close>

definition rewriteMeta ::
  "'w env \<Rightarrow> State \<Rightarrow> Token list \<Rightarrow> nat option list \<Rightarrow> State \<times> Token list" where
  "rewriteMeta env st tb attr =
     (case attr ! 0 of
        None \<Rightarrow> (st, tb)
      | Some content \<Rightarrow>
          (case
             (case attr ! 1 of
                None \<Rightarrow> (st, tb)
              | Some httpEquiv \<Rightarrow>
                  (let tb1 = assign tb content
                               (\<lambda>t. t\<lparr>AttrVal := NormalizeContentType env (AttrVal t)\<rparr>)
                   in
                   if attr ! 2 = None
                      \<and> EqualCaseInsensitive (AttrVal (Peek tb1 httpEquiv)) ''content-type''
                      \<and> Equal (AttrVal (Peek tb1 content)) ''text/html;charset=utf-8'' then
                     (st, assign (assign tb1 httpEquiv (\<lambda>t. t\<lparr>Data := None\<rparr>)) content
                            (\<lambda>t. t\<lparr>Data := Some ''charset'', Hash := Charset,
                                   AttrVal := ''utf-8''\<rparr>))
                   else if EqualCaseInsensitive (AttrVal (Peek tb1 httpEquiv))
                             ''content-style-type'' then
                     (st\<lparr>defaultStyleType := AttrVal (Peek tb1 content),
                         defaultInlineStyleType := AttrVal (Peek tb1 content) @ '';inline=1''\<rparr>,
                      tb1)
                   else if EqualCaseInsensitive (AttrVal (Peek tb1 httpEquiv))
                             ''content-script-type'' then
                     (st\<lparr>defaultScriptType := AttrVal (Peek tb1 content)\<rparr>, tb1)
                   else (st, tb1)))
           of (st1, tb2) \<Rightarrow>
             (case attr ! 3 of
                None \<Rightarrow> (st1, tb2)
              | Some name \<Rightarrow>
                  (if EqualCaseInsensitive (AttrVal (Peek tb2 name)) ''keywords'' then
                     (st1, assign tb2 content
                             (\<lambda>t. t\<lparr>AttrVal := Replace (AttrVal t) '', '' '',''\<rparr>))
                   else if EqualCaseInsensitive (AttrVal (Peek tb2 name)) ''viewport'' then
                     (st1, assign tb2 content
                             (\<lambda>t. t\<lparr>AttrVal := Replace (AttrVal t) '' '' []\<rparr>))
                   else (st1, tb2)))))"

text \<open>The rewriting of the attributes of a script tag.\<close>

definition rewriteScript :: "Token list \<Rightarrow> nat option list \<Rightarrow> Token list" where
  "rewriteScript tb attr =
     (case attr ! 0 of
        None \<Rightarrow> tb
      | Some src \<Rightarrow>
          (case attr ! 1 of
             None \<Rightarrow> tb
           | Some charset \<Rightarrow> assign tb charset (\<lambda>t. t\<lparr>Data := None\<rparr>)))"

text \<open>"rewrite attributes with interdependent conditions", for the tag \<open>t\<close>.\<close>

definition rewriteAttributes ::
  "'w env \<Rightarrow> State \<Rightarrow> Token \<Rightarrow> Token list \<Rightarrow> State \<times> Token list" where
  "rewriteAttributes env st t tb =
     (if Hash t = A_tag then
        (case getAttributes tb (attrIntBuffer st) [Id_attr, Name, Rel, Href] of
           (ib, tb1, attr) \<Rightarrow> (st\<lparr>attrIntBuffer := ib\<rparr>, rewriteA tb1 attr))
      else if Hash t = Meta then
        (case getAttributes tb (attrIntBuffer st) [Content, Http_Equiv, Charset, Name] of
           (ib, tb1, attr) \<Rightarrow> rewriteMeta env (st\<lparr>attrIntBuffer := ib\<rparr>) tb1 attr)
      else if Hash t = Script then
        (case getAttributes tb (attrIntBuffer st) [Src, Charset] of
           (ib, tb1, attr) \<Rightarrow> (st\<lparr>attrIntBuffer := ib\<rparr>, rewriteScript tb1 attr))
      else (st, tb))"

text \<open>The name of an event handler: longer than two bytes and starting with \<open>on\<close>.\<close>

definition isEventName :: "bytes \<Rightarrow> bool" where
  "isEventName d = (length d > 2 \<and> d ! 0 = CHR ''o'' \<and> d ! 1 = CHR ''n'')"

text \<open>"omit empty attribute values"\<close>

definition emptyOmitted :: "Token \<Rightarrow> Token \<Rightarrow> bytes \<Rightarrow> bool" where
  "emptyOmitted t attr val =
     (length val = 0 \<and>
      (Hash attr = Class \<or> Hash attr = Dir \<or> Hash attr = Id_attr \<or> Hash attr = Lang
       \<or> Hash attr = Name \<or> Hash attr = Style \<or> Hash attr = Title
       \<or> Hash attr = Action \<and> Hash t = Form
       \<or> Hash attr = Value \<and> Hash t = Input
       \<or> isEventName (the_bytes (Data attr))))"

text \<open>"default attribute values can be ommited"\<close>

definition defaultOmitted :: "Token \<Rightarrow> Token \<Rightarrow> bytes \<Rightarrow> bool" where
  "defaultOmitted t attr val =
     (Hash attr = Type \<and>
        (Hash t = Script \<and> Equal val ''text/javascript''
         \<or> Hash t = Style \<and> Equal val ''text/css''
         \<or> Hash t = Link \<and> Equal val ''text/css''
         \<or> Hash t = Input \<and> Equal val ''text''
         \<or> Hash t = Button \<and> Equal val ''submit'')
      \<or> Hash attr = Language \<and> Hash t = Script
      \<or> Hash attr = Method \<and> Equal val ''get''
      \<or> Hash attr = Enctype \<and> Equal val ''application/x-www-form-urlencoded''
      \<or> Hash attr = Colspan \<and> Equal val ''1''
      \<or> Hash attr = Rowspan \<and> Equal val ''1''
      \<or> Hash attr = Shape \<and> Equal val ''rect''
      \<or> Hash attr = Span \<and> Equal val ''1''
      \<or> Hash attr = Clear \<and> Equal val ''none''
      \<or> Hash attr = Frameborder \<and> Equal val ''1''
      \<or> Hash attr = Scrolling \<and> Equal val ''auto''
      \<or> Hash attr = Valuetype \<and> Equal val ''data''
      \<or> Hash attr = Media \<and> Hash t = Style \<and> Equal val ''all'')"

text \<open>The attributes whose value is a media type, normalised as such.\<close>

definition mediaTypeAttr :: "Token \<Rightarrow> Token \<Rightarrow> bool" where
  "mediaTypeAttr t attr =
     (Hash attr = Enctype \<or> Hash attr = Codetype \<or> Hash attr = Accept
      \<or> Hash attr = Type \<and>
         (Hash t = A_tag \<or> Hash t = Link \<or> Hash t = Object \<or> Hash t = Param
          \<or> Hash t = Script \<or> Hash t = Style \<or> Hash t = Source))"

text \<open>The value of an attribute of the tag \<open>t\<close> after unwrapping and normalising.\<close>

definition logicalVal :: "'w env \<Rightarrow> Token \<Rightarrow> Token \<Rightarrow> bytes" where
  "logicalVal env t attr =
     (let val = unwrapVal (AttrVal attr) in
      if caseInsensitiveAttrMap env (Hash attr) then
        (if mediaTypeAttr t attr then NormalizeContentType env (ToLower val)
         else ToLower val)
      else val)"

text \<open>
  The value is a part of the token's raw value, not a copy: \<open>val := attr.AttrVal\<close>, then
  a slice expression and parse.Trim. parse.ToLower and parse.NormalizeContentType write
  into the slice they are given, so afterwards \<open>attr.AttrVal\<close> holds their output where the
  value stood. \<open>valOffset\<close> is where the value starts in the raw value. After
  parse.ToLower that part is lower-cased; after parse.NormalizeContentType its result
  stands at the front of the part, and the rest of the part is as parse.ToLower left it.
\<close>

definition valOffset :: "bytes \<Rightarrow> nat" where
  "valOffset v =
     (if length v > 1 \<and> (v ! 0 = dquote \<or> v ! 0 = squote)
      then 1 + length (takeWhile IsWhitespace (take (length v - 2) (drop 1 v)))
      else 0)"

definition overwrite :: "bytes \<Rightarrow> nat \<Rightarrow> bytes \<Rightarrow> bytes" where
  "overwrite b off new = take off b @ new @ drop (off + length new) b"

definition rawAfter :: "'w env \<Rightarrow> Token \<Rightarrow> Token \<Rightarrow> bytes" where
  "rawAfter env t attr =
     (if caseInsensitiveAttrMap env (Hash attr) then
        (let lower = ToLower (unwrapVal (AttrVal attr));
             part = (if mediaTypeAttr t attr then
                       (let n = NormalizeContentType env lower
                        in take (length lower) (n @ drop (length n) lower))
                     else lower)
         in overwrite (AttrVal attr) (valOffset (AttrVal attr)) part)
      else AttrVal attr)"

text \<open>
  What follows the \<open>=\<close> sign, before quoting: inline style and script go through the
  registry, whose output is taken when it reports no error.
\<close>

definition inlineVal :: "'w env \<Rightarrow> State \<Rightarrow> Token \<Rightarrow> Token \<Rightarrow> bytes \<Rightarrow> bytes" where
  "inlineVal env st t attr val =
     (if Hash attr = Style then
        (case MinifyM env (defaultInlineStyleType st) val of
           Inr out \<Rightarrow> out
         | Inl e \<Rightarrow> val)
      else if isEventName (the_bytes (Data attr)) then
        (let val1 = (if length val \<ge> 11 \<and> EqualCaseInsensitive (take 11 val) ''javascript:''
                     then drop 11 val else val)
         in case MinifyM env (defaultScriptType st) val1 of
              Inr out \<Rightarrow> out
            | Inl e \<Rightarrow> val1)
      else if Hash t \<noteq> A_tag \<and> urlAttrMap env (Hash attr) then stripScheme val
      else val)"

text \<open>
  One turn of the loop that writes the attributes, for an attribute token that has not
  been removed. The original handed to escapeAttrVal is \<open>attr.AttrVal\<close> as the
  normalising above left it.
\<close>

definition writeAttribute ::
  "'w env \<Rightarrow> Token \<Rightarrow> State \<Rightarrow> 'w \<Rightarrow> Token \<Rightarrow> fault + (State \<times> 'w)" where
  "writeAttribute env t st w attr =
     (if emptyOmitted t attr (unwrapVal (AttrVal attr)) then Inr (st, w)
      else
        (let val = logicalVal env t attr;
             st1 = (if rawTag st \<noteq> NoHash \<and> Hash attr = Type
                    then st\<lparr>rawTagMediatype := val\<rparr> else st)
         in
         if defaultOmitted t attr val then Inr (st1, w)
         else
           (case wWrite env w '' '' of
              Inl f \<Rightarrow> Inl f
            | Inr w1 \<Rightarrow>
                (case wWrite env w1 (the_bytes (Data attr)) of
                   Inl f \<Rightarrow> Inl f
                 | Inr w2 \<Rightarrow>
                     (if length val > 0 \<and> \<not> booleanAttrMap env (Hash attr) then
                        (case wWrite env w2 ''='' of
                           Inl f \<Rightarrow> Inl f
                         | Inr w3 \<Rightarrow>
                             (case escapeAttrVal (attrByteBuffer st1) (rawAfter env t attr)
                                     (inlineVal env st1 t attr val) of
                                None \<Rightarrow> Inl Panic
                              | Some (buf, v) \<Rightarrow>
                                  (case wWrite env w3 v of
                                     Inl f \<Rightarrow> Inl f
                                   | Inr w4 \<Rightarrow> Inr (st1\<lparr>attrByteBuffer := buf\<rparr>, w4))))
                      else Inr (st1, w2))))))"

text \<open>
  "write attributes": tokens are shifted until one is not an attribute, and that one is
  consumed too.
\<close>

fun writeAttributes ::
  "'w env \<Rightarrow> Token \<Rightarrow> State \<Rightarrow> 'w \<Rightarrow> Token list \<Rightarrow> fault + (State \<times> 'w \<times> Token list)" where
  "writeAttributes env t st w [] = Inr (st, w, [])"
| "writeAttributes env t st w (attr # tb) =
     (if TokenType attr \<noteq> AttributeToken then Inr (st, w, tb)
      else if Data attr = None then writeAttributes env t st w tb
      else
        (case writeAttribute env t st w attr of
           Inl f \<Rightarrow> Inl f
         | Inr (st1, w1) \<Rightarrow> writeAttributes env t st1 w1 tb))"

section \<open>Tags\<close>

text \<open>
  The scan after \<open></p>\<close>: whitespace-only text tokens are skipped, and \<open>True\<close> is the
  source's \<open>remove\<close>.
\<close>

function removeP :: "'w env \<Rightarrow> Token list \<Rightarrow> nat \<Rightarrow> bool" where
  "removeP env tb i =
     (let next = Peek tb i in
      if TokenType next = TextToken \<and> IsAllWhitespace (the_bytes (Data next))
      then removeP env tb (Suc i)
      else (TokenType next = ErrorToken
            \<or> TokenType next = EndTagToken \<and> Hash next \<noteq> A_tag
            \<or> TokenType next = StartTagToken \<and> blockTagMap env (Hash next)))"
  by pat_completeness auto
termination
  by (relation "measure (\<lambda>(env, tb, i). length tb - i)")
     (auto simp: Peek_def errorToken_def split: if_splits)

declare removeP.simps [simp del]

text \<open>"write tag": the name, the attributes when there are any, and the closing \<open>>\<close>.\<close>

definition writeTag ::
  "'w env \<Rightarrow> State \<Rightarrow> 'w \<Rightarrow> Token \<Rightarrow> bool \<Rightarrow> Token list \<Rightarrow> fault + (State \<times> 'w \<times> Token list)" where
  "writeTag env st w t hasAttributes tb =
     (case wWrite env w (if TokenType t = EndTagToken then ''</'' else ''<'') of
        Inl f \<Rightarrow> Inl f
      | Inr w1 \<Rightarrow>
          (case wWrite env w1 (the_bytes (Data t)) of
             Inl f \<Rightarrow> Inl f
           | Inr w2 \<Rightarrow>
               (case (if hasAttributes then
                        (case rewriteAttributes env st t tb of
                           (st1, tb1) \<Rightarrow> writeAttributes env t st1 w2 tb1)
                      else Inr (st, w2, tb)) of
                  Inl f \<Rightarrow> Inl f
                | Inr (st2, w3, tb2) \<Rightarrow>
                    (case wWrite env w3 ''>'' of
                       Inl f \<Rightarrow> Inl f
                     | Inr w4 \<Rightarrow> Inr (st2, w4, tb2)))))"

text \<open>The end tags that are always left out.\<close>

definition omittedEndTag :: "Hash \<Rightarrow> bool" where
  "omittedEndTag h =
     (h = Thead \<or> h = Tbody \<or> h = Tfoot \<or> h = Tr \<or> h = Th \<or> h = Td \<or> h = Optgroup
      \<or> h = Option \<or> h = Dd \<or> h = Dt \<or> h = Li \<or> h = Rb \<or> h = Rt \<or> h = Rtc \<or> h = Rp)"

text \<open>
  A start or end tag \<open>t\<close>, already shifted off the buffer \<open>tb\<close>. A \<open>break\<close> of the source
  is a result that writes nothing.
\<close>

definition tagToken ::
  "'w env \<Rightarrow> State \<Rightarrow> 'w \<Rightarrow> Token \<Rightarrow> Token list \<Rightarrow> fault + (State \<times> 'w \<times> Token list)" where
  "tagToken env st w t tb =
     (let st0 = st\<lparr>rawTag := NoHash\<rparr>;
          hasAttributes = (TokenType t = StartTagToken
                           \<and> TokenType (Peek tb 0) = AttributeToken)
      in
      if \<not> inlineTagMap env (Hash t) then
        (let st1 = st0\<lparr>precededBySpace := True\<rparr> in
         if TokenType t = StartTagToken \<and> rawTagMap env (Hash t) \<and> \<not> hasAttributes
            \<and> (Hash t = Script \<or> Hash t = Style) \<and> TokenType (Peek tb 1) = EndTagToken
         then Inr (st1, w, snd (Shift (snd (Shift tb))))
         else
           (let st2 = (if TokenType t = StartTagToken \<and> rawTagMap env (Hash t)
                       then st1\<lparr>rawTag := Hash t, rawTagMediatype := []\<rparr> else st1)
            in
            if \<not> hasAttributes
               \<and> (Hash t = Html \<or> Hash t = Head \<or> Hash t = Body \<or> Hash t = Colgroup)
            then Inr (st2, w, tb)
            else if TokenType t = EndTagToken \<and> omittedEndTag (Hash t) then Inr (st2, w, tb)
            else if TokenType t = EndTagToken \<and> Hash t = P_tag \<and> removeP env tb 0
            then Inr (st2, w, tb)
            else writeTag env st2 w t hasAttributes tb))
      else writeTag env st0 w t hasAttributes tb)"

section \<open>Minify\<close>

text \<open>
  One turn of the loop of Minify on the token \<open>t\<close> that was shifted off, leaving \<open>tb\<close>.
  Token types without a case in the switch change nothing.
\<close>

definition token ::
  "'w env \<Rightarrow> State \<Rightarrow> 'w \<Rightarrow> Token \<Rightarrow> Token list \<Rightarrow> fault + (State \<times> 'w \<times> Token list)" where
  "token env st w t tb =
     (case TokenType t of
        DoctypeToken \<Rightarrow>
          (case wWrite env w ''<!doctype html>'' of
             Inl f \<Rightarrow> Inl f
           | Inr w1 \<Rightarrow> Inr (st, w1, tb))
      | CommentToken \<Rightarrow>
          (case wWrite env w (commentBytes (the_bytes (Data t))) of
             Inl f \<Rightarrow> Inl f
           | Inr w1 \<Rightarrow> Inr (st, w1, tb))
      | TextToken \<Rightarrow>
          (case textToken env st w tb t of
             Inl f \<Rightarrow> Inl f
           | Inr (st1, w1) \<Rightarrow> Inr (st1, w1, tb))
      | StartTagToken \<Rightarrow> tagToken env st w t tb
      | EndTagToken \<Rightarrow> tagToken env st w t tb
      | _ \<Rightarrow> Inr (st, w, tb))"

section \<open>Collaborators for evaluation\<close>

text \<open>
  A sink that appends to a byte buffer and never fails, and a registry with no minifier
  registered. The tables list, of the names Minify mentions, those the HTML standard
  puts in each class.
\<close>

definition bufferWrite :: "bytes \<Rightarrow> bytes \<Rightarrow> error + bytes" where
  "bufferWrite out b = Inr (out @ b)"

definition noMinifier :: "bytes \<Rightarrow> bytes \<Rightarrow> error + bytes" where
  "noMinifier mediatype content = Inl ErrNotExist"

definition removeSpaces :: "bytes \<Rightarrow> bytes" where
  "removeSpaces b = ToLower (filter (\<lambda>c. \<not> IsWhitespace c) b)"

definition exampleEnv :: "bytes env" where
  "exampleEnv = \<lparr>
     Write = bufferWrite,
     MinifyM = noMinifier,
     NormalizeContentType = removeSpaces,
     inlineTagMap = (\<lambda>h. h = A_tag \<or> h = Button \<or> h = Input \<or> h = Object \<or> h = Span),
     blockTagMap = (\<lambda>h. h = Dd \<or> h = Dt \<or> h = Form \<or> h = Li \<or> h = P_tag
                       \<or> h = Tbody \<or> h = Td \<or> h = Tfoot \<or> h = Th \<or> h = Thead \<or> h = Tr),
     rawTagMap = (\<lambda>h. h = Iframe \<or> h = Math \<or> h = Script \<or> h = Style \<or> h = Svg),
     booleanAttrMap = (\<lambda>h. False),
     caseInsensitiveAttrMap = (\<lambda>h. h = Accept \<or> h = Charset \<or> h = Clear \<or> h = Codetype
                       \<or> h = Dir \<or> h = Enctype \<or> h = Frameborder \<or> h = Http_Equiv
                       \<or> h = Language \<or> h = Media \<or> h = Method \<or> h = Rel \<or> h = Scrolling
                       \<or> h = Shape \<or> h = Type \<or> h = Valuetype),
     urlAttrMap = (\<lambda>h. h = Action \<or> h = Href \<or> h = Src)\<rparr>"

text \<open>The same with a registry whose minifiers all fail with an error of their own.\<close>

definition failingEnv :: "bytes env" where
  "failingEnv = exampleEnv\<lparr>MinifyM := (\<lambda>mediatype content. Inl (Err 1))\<rparr>"

text \<open>Tokens as the tokenizer gives them.\<close>

definition startTag :: "Hash \<Rightarrow> bytes \<Rightarrow> Token" where
  "startTag h name = \<lparr>TokenType = StartTagToken, Hash = h, Data = Some name, AttrVal = []\<rparr>"

definition endTag :: "Hash \<Rightarrow> bytes \<Rightarrow> Token" where
  "endTag h name = \<lparr>TokenType = EndTagToken, Hash = h, Data = Some name, AttrVal = []\<rparr>"

definition attribute :: "Hash \<Rightarrow> bytes \<Rightarrow> bytes \<Rightarrow> Token" where
  "attribute h name val = \<lparr>TokenType = AttributeToken, Hash = h, Data = Some name, AttrVal = val\<rparr>"

definition textTok :: "bytes \<Rightarrow> Token" where
  "textTok d = \<lparr>TokenType = TextToken, Hash = NoHash, Data = Some d, AttrVal = []\<rparr>"

definition commentTok :: "bytes \<Rightarrow> Token" where
  "commentTok d = \<lparr>TokenType = CommentToken, Hash = NoHash, Data = Some d, AttrVal = []\<rparr>"

definition tagClose :: Token where
  "tagClose = \<lparr>TokenType = OtherToken, Hash = NoHash, Data = Some ''>'', AttrVal = []\<rparr>"

section \<open>The quoting rules in the words of the specification\<close>

text \<open>
  The specification counts "literal double quotes, literal single quotes, and each decoded
  quote-entity occurrence toward the corresponding count", emits a value unquoted when
  it "contains none of: a literal quote, a quote entity, a backtick, \<open><\<close>, \<open>=\<close>, \<open>>\<close>,
  or whitespace", and chooses single quotes "only when doubles strictly outnumber
  singles". These definitions say that, position by position; the theorems below compare
  them with what escapeAttrVal computes.
\<close>

definition spec_quoteAt :: "char \<Rightarrow> bytes \<Rightarrow> nat \<Rightarrow> bool" where
  "spec_quoteAt q b i =
     (b ! i = q
      \<or> b ! i = CHR ''&''
        \<and> (case isAtQuoteEntity (drop i b) of None \<Rightarrow> False | Some (q', n) \<Rightarrow> q' = q))"

definition spec_quoteCount :: "char \<Rightarrow> bytes \<Rightarrow> nat" where
  "spec_quoteCount q b = length (filter (spec_quoteAt q b) [0..<length b])"

definition spec_plainByte :: "char \<Rightarrow> bool" where
  "spec_plainByte c =
     (\<not> (c = CHR 0x60 \<or> c = CHR ''<'' \<or> c = CHR ''='' \<or> c = CHR ''>'' \<or> IsWhitespace c))"

definition spec_needsQuotes :: "bytes \<Rightarrow> bool" where
  "spec_needsQuotes b =
     list_ex (\<lambda>i. spec_quoteAt squote b i \<or> spec_quoteAt dquote b i \<or> \<not> spec_plainByte (b ! i))
       [0..<length b]"

definition spec_chosenQuote :: "bytes \<Rightarrow> char" where
  "spec_chosenQuote b =
     (if spec_quoteCount dquote b > spec_quoteCount squote b then squote else dquote)"

text \<open>The token buffer never grows: every turn only shifts tokens off or updates them.\<close>

lemma length_assign [simp]: "length (assign tb k f) = length tb"
  by (simp add: assign_def)

lemma length_fetchAttributes:
  "fetchAttributes tb idx = (tb', ps) \<Longrightarrow> length tb' = length tb"
  by (induction tb idx arbitrary: tb' ps rule: fetchAttributes.induct)
     (auto split: if_splits prod.splits)

lemma length_getAttributes:
  "getAttributes tb ib hashes = (ib', tb', ps) \<Longrightarrow> length tb' = length tb"
  by (auto simp: getAttributes_def Let_def split: prod.splits dest: length_fetchAttributes)

lemma length_rewriteA [simp]: "length (rewriteA tb attr) = length tb"
  by (simp add: rewriteA_def Let_def split: option.splits)

lemma length_rewriteScript [simp]: "length (rewriteScript tb attr) = length tb"
  by (simp add: rewriteScript_def split: option.splits)

lemma length_rewriteMeta:
  "rewriteMeta env st tb attr = (st', tb') \<Longrightarrow> length tb' = length tb"
  by (auto simp: rewriteMeta_def Let_def split: option.splits if_splits prod.splits)

lemma length_rewriteAttributes:
  assumes "rewriteAttributes env st t tb = (st', tb')"
  shows "length tb' = length tb"
proof -
  have g: "length (fst (snd (getAttributes tb ib hs))) = length tb" for ib hs
    using length_getAttributes [of tb ib hs] by (cases "getAttributes tb ib hs") auto
  have m: "length (snd (rewriteMeta env s b a)) = length b" for s b a
    using length_rewriteMeta [of env s b a] by (cases "rewriteMeta env s b a") auto
  have "length (snd (rewriteAttributes env st t tb)) = length tb"
    by (simp add: rewriteAttributes_def split_beta g m)
  with assms show ?thesis by simp
qed

lemma length_writeAttributes:
  "writeAttributes env t st w tb = Inr (st', w', tb') \<Longrightarrow> length tb' \<le> length tb"
proof (induction tb arbitrary: st w)
  case Nil
  then show ?case by simp
next
  case (Cons attr tb)
  then show ?case
    by (fastforce split: if_splits sum.splits prod.splits)
qed

lemma length_writeTag:
  "writeTag env st w t h tb = Inr (st', w', tb') \<Longrightarrow> length tb' \<le> length tb"
  by (auto simp: writeTag_def split: sum.splits if_splits prod.splits
           dest!: length_writeAttributes length_rewriteAttributes)

lemma length_tagToken:
  "tagToken env st w t tb = Inr (st', w', tb') \<Longrightarrow> length tb' \<le> length tb"
  by (auto simp: tagToken_def Let_def Shift_def split: if_splits list.splits
           dest: length_writeTag)

lemma length_token:
  "token env st w t tb = Inr (st', w', tb') \<Longrightarrow> length tb' \<le> length tb"
  by (auto simp: token_def split: TokenType.splits sum.splits dest: length_tagToken)

text \<open>
  The loop of Minify. \<open>zErr\<close> is what \<open>z.Err()\<close> holds when the tokenizer gives its Error
  token: \<open>None\<close> is io.EOF, the clean end of the input. The result is the sink after the
  last write when Minify returns nil, and the fault otherwise.
\<close>

function MinifyLoop ::
  "'w env \<Rightarrow> error option \<Rightarrow> State \<Rightarrow> 'w \<Rightarrow> Token list \<Rightarrow> fault + 'w" where
  "MinifyLoop env zErr st w tb =
     (case Shift tb of (t, tb1) \<Rightarrow>
        if TokenType t = ErrorToken then
          (case zErr of None \<Rightarrow> Inr w | Some e \<Rightarrow> Inl (Failure e))
        else
          (case token env st w t tb1 of
             Inl f \<Rightarrow> Inl f
           | Inr (st', w', tb') \<Rightarrow> MinifyLoop env zErr st' w' tb'))"
  by pat_completeness auto
termination
proof (relation "measure (\<lambda>(env, zErr, st, w, tb). length tb)", goal_cases)
  case 1
  show ?case by simp
next
  case 2
  then show ?case
    by (auto simp: Shift_def errorToken_def split: list.splits dest!: length_token)
qed

declare MinifyLoop.simps [simp del]

definition Minify :: "'w env \<Rightarrow> error option \<Rightarrow> 'w \<Rightarrow> Token list \<Rightarrow> fault + 'w" where
  "Minify env zErr w tb = MinifyLoop env zErr initState w tb"

section \<open>Properties\<close>

subsection \<open>One turn of the loop\<close>

lemma MinifyLoop_Cons:
  "TokenType t \<noteq> ErrorToken \<Longrightarrow>
   MinifyLoop env zErr st w (t # tb) =
     (case token env st w t tb of
        Inl f \<Rightarrow> Inl f
      | Inr (st', w', tb') \<Rightarrow> MinifyLoop env zErr st' w' tb')"
  by (subst MinifyLoop.simps) (simp add: Shift_def)

lemma MinifyLoop_Nil:
  "MinifyLoop env zErr st w [] = (case zErr of None \<Rightarrow> Inr w | Some e \<Rightarrow> Inl (Failure e))"
  by (subst MinifyLoop.simps) (simp add: Shift_def errorToken_def)

lemma Shift_Shift:
  "TokenType (Peek tb 1) = EndTagToken \<Longrightarrow> snd (Shift (snd (Shift tb))) = drop 2 tb"
  by (cases tb; cases "tl tb")
     (auto simp: Shift_def Peek_def errorToken_def split: if_splits)

subsection \<open>Collapsed whitespace\<close>







subsection \<open>The two loops of escapeAttrVal\<close>

lemma isAtQuoteEntity_quote:
  "isAtQuoteEntity b = Some (q, n) \<Longrightarrow> q = dquote \<or> q = squote"
  by (auto simp: isAtQuoteEntity_def Let_def split: if_splits)

lemma quotes_distinct:
  "dquote \<noteq> squote" "squote \<noteq> dquote"
  "CHR ''&'' \<noteq> dquote" "CHR ''&'' \<noteq> squote"
  "dquote \<noteq> CHR ''&''" "squote \<noteq> CHR ''&''"
  by (simp_all add: dquote_def squote_def)

lemma countQuotes_step:
  assumes "i < length b"
  shows "countQuotes b i (s, d, u) =
         countQuotes b (Suc i)
           (if spec_quoteAt squote b i then s + 1 else s,
            if spec_quoteAt dquote b i then d + 1 else d,
            u \<and> \<not> spec_quoteAt squote b i \<and> \<not> spec_quoteAt dquote b i \<and> spec_plainByte (b ! i))"
proof (cases "b ! i = CHR ''&''")
  case True
  show ?thesis
  proof (cases "isAtQuoteEntity (drop i b)")
    case None
    with True assms show ?thesis
      by (subst countQuotes.simps)
         (simp add: spec_quoteAt_def spec_plainByte_def quotes_distinct IsWhitespace_def)
  next
    case (Some r)
    obtain q n where r: "r = (q, n)"
      by (cases r)
    from Some r have "q = dquote \<or> q = squote"
      by (auto dest: isAtQuoteEntity_quote)
    with True Some r assms show ?thesis
      by (subst countQuotes.simps) (auto simp: spec_quoteAt_def quotes_distinct)
  qed
next
  case False
  with assms show ?thesis
    by (subst countQuotes.simps) (auto simp: spec_quoteAt_def spec_plainByte_def quotes_distinct Let_def)
qed

lemma countQuotes_counts:
  "countQuotes b i (s, d, u) =
     (s + length (filter (spec_quoteAt squote b) [i..<length b]),
      d + length (filter (spec_quoteAt dquote b) [i..<length b]),
      u \<and> list_all (\<lambda>k. \<not> spec_quoteAt squote b k \<and> \<not> spec_quoteAt dquote b k \<and> spec_plainByte (b ! k))
            [i..<length b])"
proof (induction n \<equiv> "length b - i" arbitrary: i s d u)
  case 0
  then show ?case
    by (subst countQuotes.simps) simp
next
  case (Suc n)
  then have lt: "i < length b" and n: "n = length b - Suc i"
    by simp_all
  show ?case
    unfolding countQuotes_step [OF lt] Suc.hyps(1) [OF n]
    using lt by (auto simp: upt_conv_Cons)
qed

lemma countQuotes_spec:
  "countQuotes b 0 (0, 0, True) =
     (spec_quoteCount squote b, spec_quoteCount dquote b, \<not> spec_needsQuotes b)"
  unfolding countQuotes_counts
  by (auto simp: spec_quoteCount_def spec_needsQuotes_def list_all_iff list_ex_iff)


lemma copy_at_props:
  assumes "copy_at t j src = Some (t', n)"
  shows "length t' = length t" and "j + n \<le> length t" and "0 < j \<Longrightarrow> t' ! 0 = t ! 0"
  using assms
  by (auto simp: copy_at_def Let_def nth_append min_def split: if_splits)

lemma escapeLoop_step:
  assumes "i < length b" and "escapeLoop q e b i (t, j, start) = Some r"
    and "0 < j" and "j \<le> length t" and "t ! 0 = q"
  obtains t2 j2 s2 where "escapeLoop q e b (Suc i) (t2, j2, s2) = Some r"
    and "0 < j2" and "j2 \<le> length t2" and "t2 ! 0 = q" and "length t2 = length t"
proof -
  from assms(1,2) have
    "escapeLoop q e b (Suc i) (t, j, start) = Some r
     \<or> (\<exists>seg t1 k1 src t2 k2 s2. copy_at t j seg = Some (t1, k1)
           \<and> copy_at t1 (j + k1) src = Some (t2, k2)
           \<and> escapeLoop q e b (Suc i) (t2, j + k1 + k2, s2) = Some r)"
    by (subst (asm) escapeLoop.simps)
       (auto simp: Let_def split: if_splits option.splits prod.splits)
  then consider
      (skip) "escapeLoop q e b (Suc i) (t, j, start) = Some r"
    | (copy) seg t1 k1 src t2 k2 s2 where "copy_at t j seg = Some (t1, k1)"
        and "copy_at t1 (j + k1) src = Some (t2, k2)"
        and "escapeLoop q e b (Suc i) (t2, j + k1 + k2, s2) = Some r"
    by blast
  then show thesis
  proof cases
    case skip
    then show ?thesis
      using assms(3,4,5) by (rule that) simp
  next
    case copy
    have "0 < j + k1 + k2" "j + k1 + k2 \<le> length t2" "t2 ! 0 = q" "length t2 = length t"
      using copy_at_props [OF copy(1)] copy_at_props [OF copy(2)] assms(3,4,5)
      by auto
    with copy(3) show ?thesis
      by (rule that)
  qed
qed

lemma escapeLoop_inv:
  assumes "escapeLoop q e b i (t, j, start) = Some (t', j', start')"
    and "0 < j" and "j \<le> length t" and "t ! 0 = q"
  shows "0 < j' \<and> j' \<le> length t' \<and> t' ! 0 = q \<and> length t' = length t"
  using assms
proof (induction n \<equiv> "length b - i" arbitrary: i t j start)
  case 0
  then show ?case
    by (subst (asm) escapeLoop.simps) simp
next
  case (Suc n)
  then have lt: "i < length b" and n: "n = length b - Suc i"
    by simp_all
  from lt Suc.prems obtain t2 j2 s2
    where "escapeLoop q e b (Suc i) (t2, j2, s2) = Some (t', j', start')"
      and "0 < j2" and "j2 \<le> length t2" and "t2 ! 0 = q" and "length t2 = length t"
    by (rule escapeLoop_step)
  with Suc.hyps(1) [OF n] show ?case
    by metis
qed

lemma skipZeros_props:
  "i \<le> skipZeros b i \<and> (\<forall>k. i \<le> k \<and> k < skipZeros b i \<longrightarrow> b ! k = CHR ''0'')"
proof (induction n \<equiv> "length b - i" arbitrary: i)
  case 0
  then have "skipZeros b i = i"
    by (subst skipZeros.simps) simp
  then show ?case
    by force
next
  case (Suc n)
  then have n: "n = length b - Suc i"
    by simp
  show ?case
  proof (cases "i < length b \<and> b ! i = CHR ''0''")
    case True
    then have eq: "skipZeros b i = skipZeros b (Suc i)"
      by (subst skipZeros.simps) simp
    from Suc.hyps(1) [OF n] True show ?thesis
      unfolding eq by (metis Suc_leD Suc_leI le_eq_less_or_eq)
  next
    case False
    then have "skipZeros b i = i"
      by (subst skipZeros.simps) auto
    then show ?thesis
      by force
  qed
qed

lemma ToLower_byte_amp: "ToLower_byte c = x \<Longrightarrow> x \<noteq> CHR ''&'' \<Longrightarrow> c \<noteq> CHR ''&''"
  by (auto simp: ToLower_byte_def Let_def)

lemma EqualCaseInsensitive_nth:
  assumes "EqualCaseInsensitive (take 4 (drop 1 b)) w" and "6 \<le> length b"
    and "0 < k" and "k < 5"
  shows "ToLower_byte (b ! k) = w ! (k - 1)"
proof -
  from assms(1) have "map ToLower_byte (take 4 (drop 1 b)) ! (k - 1) = w ! (k - 1)"
    by (simp add: EqualCaseInsensitive_def ToLower_def)
  moreover have "map ToLower_byte (take 4 (drop 1 b)) ! (k - 1) = ToLower_byte (b ! k)"
    using assms(2,3,4) by simp
  ultimately show ?thesis by simp
qed

lemma isAtQuoteEntity_shape:
  assumes "isAtQuoteEntity bs = Some (q, m)"
  shows "5 \<le> m \<and> m \<le> length bs \<and> (\<forall>k. 0 < k \<and> k < m \<longrightarrow> bs ! k \<noteq> CHR ''&'')"
proof (cases "bs ! 1 = CHR ''#''")
  case True
  note hash = True
  show ?thesis
  proof (cases "bs ! 2 = CHR ''x''")
    case True
    define i where "i = skipZeros bs 3"
    from assms hash True have c: "i + 2 < length bs" "bs ! i = CHR ''2''"
      "bs ! (i + 2) = CHR '';''" "bs ! (i + 1) = CHR ''2'' \<or> bs ! (i + 1) = CHR ''7''"
      "m = i + 3"
      by (auto simp: isAtQuoteEntity_def Let_def i_def split: if_splits)
    from skipZeros_props [of 3 bs] have z: "3 \<le> i" "\<And>k. 3 \<le> k \<Longrightarrow> k < i \<Longrightarrow> bs ! k = CHR ''0''"
      by (auto simp: i_def)
    have "bs ! k \<noteq> CHR ''&''" if "0 < k" "k < m" for k
    proof -
      from that c(5) consider "k = 1" | "k = 2" | "3 \<le> k \<and> k < i" | "k = i" | "k = i + 1"
        | "k = i + 2"
        by linarith
      then show ?thesis
        using hash True z(2) c by cases auto
    qed
    with c z(1) show ?thesis by auto
  next
    case False
    define i where "i = skipZeros bs 2"
    from assms hash False have c: "i + 2 < length bs" "bs ! i = CHR ''3''"
      "bs ! (i + 2) = CHR '';''" "bs ! (i + 1) = CHR ''4'' \<or> bs ! (i + 1) = CHR ''9''"
      "m = i + 3"
      by (auto simp: isAtQuoteEntity_def Let_def i_def split: if_splits)
    from skipZeros_props [of 2 bs] have z: "2 \<le> i" "\<And>k. 2 \<le> k \<Longrightarrow> k < i \<Longrightarrow> bs ! k = CHR ''0''"
      by (auto simp: i_def)
    have "bs ! k \<noteq> CHR ''&''" if "0 < k" "k < m" for k
    proof -
      from that c(5) consider "k = 1" | "2 \<le> k \<and> k < i" | "k = i" | "k = i + 1"
        | "k = i + 2"
        by linarith
      then show ?thesis
        using hash z(2) c by cases auto
    qed
    with c z(1) show ?thesis by auto
  qed
next
  case False
  with assms have c: "6 \<le> length bs" "bs ! 5 = CHR '';''" "m = 6"
    and w: "EqualCaseInsensitive (take 4 (drop 1 bs)) ''quot''
            \<or> EqualCaseInsensitive (take 4 (drop 1 bs)) ''apos''"
    by (auto simp: isAtQuoteEntity_def Let_def split: if_splits)
  have "bs ! k \<noteq> CHR ''&''" if "0 < k" "k < m" for k
  proof (cases "k = 5")
    case True
    with c show ?thesis by simp
  next
    case False
    with that c have k: "0 < k" "k < 5" by simp_all
    then consider "k = 1" | "k = 2" | "k = 3" | "k = 4"
      by linarith
    then show ?thesis
      using w EqualCaseInsensitive_nth [OF _ c(1) k, of "''quot''"]
        EqualCaseInsensitive_nth [OF _ c(1) k, of "''apos''"]
      by cases (auto dest: ToLower_byte_amp)
  qed
  with c show ?thesis by auto
qed


lemma escapeLoop_returns:
  assumes "q \<notin> set b" and "length e \<le> 5"
    and "j \<le> start + 1" and "start \<le> length b"
    and "\<forall>k. i \<le> k \<and> k < start \<longrightarrow> b ! k \<noteq> CHR ''&''"
    and "j \<le> length t"
  shows "\<exists>t' j' s'. escapeLoop q e b i (t, j, start) = Some (t', j', s')
           \<and> j' \<le> s' + 1 \<and> s' \<le> length b"
  using assms(3-)
proof (induction n \<equiv> "length b - i" arbitrary: i t j start)
  case 0
  then show ?case
    by (subst escapeLoop.simps) simp
next
  case (Suc n)
  then have lt: "i < length b" and n: "n = length b - Suc i"
    by simp_all
  from lt assms(1) have nq: "b ! i \<noteq> q"
    by (metis nth_mem)
  have keep: "\<forall>k. Suc i \<le> k \<and> k < start \<longrightarrow> b ! k \<noteq> CHR ''&''"
    using Suc.prems(3) by auto
  show ?case
  proof (cases "b ! i = CHR ''&'' \<and> isAtQuoteEntity (drop i b) \<noteq> None")
    case False
    then have "b ! i \<noteq> CHR ''&'' \<or> isAtQuoteEntity (drop i b) = None"
      by (cases "isAtQuoteEntity (drop i b)") auto
    then have "escapeLoop q e b i (t, j, start) = escapeLoop q e b (Suc i) (t, j, start)"
      using lt nq by (subst escapeLoop.simps) (auto simp: Let_def)
    with Suc.hyps(1) [OF n Suc.prems(1,2) keep Suc.prems(4)] show ?thesis
      by simp
  next
    case True
    then obtain eq m where ent: "isAtQuoteEntity (drop i b) = Some (eq, m)"
      by auto
    from isAtQuoteEntity_shape [OF ent] lt
    have m: "5 \<le> m" "i + m \<le> length b"
      and inner: "\<forall>k. 0 < k \<and> k < m \<longrightarrow> b ! (i + k) \<noteq> CHR ''&''"
      by auto
    from True Suc.prems(3) have si: "start \<le> i"
      by (meson not_le_imp_less order_refl)
    define seg where "seg = take (i - start) (drop start b)"
    have sl: "slice b start i = Some seg"
      using si lt by (simp add: slice_def seg_def)
    define rep where "rep = (if eq \<noteq> q then [eq] else e)"
    have rl: "length rep \<le> 5"
      using assms(2) by (simp add: rep_def)
    obtain t1 k1 where c1: "copy_at t j seg = Some (t1, k1)"
      using Suc.prems(4) by (auto simp: copy_at_def Let_def)
    from copy_at_props [OF c1] have p1: "length t1 = length t" "j + k1 \<le> length t"
      by simp_all
    have k1: "k1 \<le> i - start"
      using c1 si lt by (auto simp: copy_at_def Let_def seg_def split: if_splits)
    obtain t2 k2 where c2: "copy_at t1 (j + k1) rep = Some (t2, k2)"
      using p1 by (auto simp: copy_at_def Let_def)
    from copy_at_props [OF c2] p1 have p2: "j + k1 + k2 \<le> length t2"
      by simp
    have k2: "k2 \<le> 5"
      using c2 rl by (auto simp: copy_at_def Let_def split: if_splits)
    have step: "escapeLoop q e b i (t, j, start) =
                escapeLoop q e b (Suc i) (t2, j + k1 + k2, i + m)"
      using lt True ent sl c1 c2
      by (subst escapeLoop.simps) (simp add: Let_def rep_def)
    have a: "j + k1 + k2 \<le> i + m + 1"
      using Suc.prems(1) k1 k2 m(1) si by linarith
    have b: "\<forall>k. Suc i \<le> k \<and> k < i + m \<longrightarrow> b ! k \<noteq> CHR ''&''"
    proof (intro allI impI)
      fix k
      assume "Suc i \<le> k \<and> k < i + m"
      then have "0 < k - i \<and> k - i < m" and "k = i + (k - i)"
        by auto
      with inner show "b ! k \<noteq> CHR ''&''"
        by metis
    qed
    from Suc.hyps(1) [OF n a m(2) b p2] show ?thesis
      unfolding step by simp
  qed
qed

text \<open>
  What escapeAttrVal returns for a value it quotes itself begins and ends with the chosen
  quote, and it does return when the value holds no literal occurrence of that quote.
\<close>

lemma escapeAttrVal_wrapped:
  assumes "spec_needsQuotes b"
    and "\<not> (spec_quoteCount squote b = 0 \<and> spec_quoteCount dquote b = 0
           \<and> length orig = length b + 2)"
    and "escapeAttrVal buf orig b = Some (buf', r)"
  shows "2 \<le> length r \<and> hd r = spec_chosenQuote b \<and> last r = spec_chosenQuote b"
proof -
  define q where "q = spec_chosenQuote b"
  define e where "e = (if spec_quoteCount dquote b > spec_quoteCount squote b
                       then escapedSingleQuoteBytes else escapedDoubleQuoteBytes)"
  define buf1 where "buf1 = (if length b + 2 > length buf
                             then replicate (length b + 2) (CHR 0x00) else buf)"
  define t0 where "t0 = (take (length b + 2) buf1)[0 := q]"
  have len0: "length t0 = length b + 2"
    by (auto simp: t0_def buf1_def)
  then have t00: "t0 ! 0 = q"
    by (simp add: t0_def)
  from assms obtain t1 j1 start seg t2 k
    where loop: "escapeLoop q e b 0 (t0, 1, 0) = Some (t1, j1, start)"
      and cp: "copy_at t1 j1 seg = Some (t2, k)"
      and lt: "j1 + k < length t2"
      and r: "r = take (j1 + k + 1) (t2[j1 + k := q])"
    by (auto simp: escapeAttrVal_def countQuotes_spec Let_def q_def e_def buf1_def t0_def
          spec_chosenQuote_def split: if_splits option.splits prod.splits)
  from escapeLoop_inv [OF loop] len0 t00
  have inv: "0 < j1" "j1 \<le> length t1" "t1 ! 0 = q"
    by auto
  from copy_at_props [OF cp] inv have t2: "t2 ! 0 = q"
    by simp
  from lt inv(1) have r0: "r ! 0 = q" and rl: "r ! (j1 + k) = q"
    and len: "length r = j1 + k + 1"
    using t2 by (auto simp: r nth_list_update)
  from len have ne: "r \<noteq> []"
    by auto
  have "hd r = q"
    using r0 ne by (simp add: hd_conv_nth)
  moreover have "last r = q"
    using rl ne len by (simp add: last_conv_nth)
  moreover have "2 \<le> length r"
    using len inv(1) by simp
  ultimately show ?thesis
    by (simp add: q_def)
qed

lemma escapeAttrVal_returns:
  assumes "spec_needsQuotes b"
    and "\<not> (spec_quoteCount squote b = 0 \<and> spec_quoteCount dquote b = 0
           \<and> length orig = length b + 2)"
    and "spec_chosenQuote b \<notin> set b"
  shows "\<exists>buf' r. escapeAttrVal buf orig b = Some (buf', r)"
proof -
  define q where "q = spec_chosenQuote b"
  define e where "e = (if spec_quoteCount dquote b > spec_quoteCount squote b
                       then escapedSingleQuoteBytes else escapedDoubleQuoteBytes)"
  define buf1 where "buf1 = (if length b + 2 > length buf
                             then replicate (length b + 2) (CHR 0x00) else buf)"
  define t0 where "t0 = (take (length b + 2) buf1)[0 := q]"
  have len0: "length t0 = length b + 2"
    by (auto simp: t0_def buf1_def)
  then have t00: "t0 ! 0 = q"
    by (simp add: t0_def)
  have el: "length e \<le> 5"
    by (simp add: e_def escapedSingleQuoteBytes_def escapedDoubleQuoteBytes_def)
  from escapeLoop_returns [of q b e 1 0 0 t0] assms(3) el len0
  obtain t1 j1 s1 where loop: "escapeLoop q e b 0 (t0, 1, 0) = Some (t1, j1, s1)"
    and j1: "j1 \<le> s1 + 1" and s1: "s1 \<le> length b"
    by (auto simp: q_def)
  from escapeLoop_inv [OF loop] len0 t00
  have inv: "j1 \<le> length t1" "length t1 = length b + 2"
    by auto
  define seg where "seg = take (length b - s1) (drop s1 b)"
  have sl: "slice b s1 (length b) = Some seg"
    using s1 by (simp add: slice_def seg_def)
  obtain t2 k where cp: "copy_at t1 j1 seg = Some (t2, k)"
    using inv(1) by (auto simp: copy_at_def Let_def)
  have k: "k \<le> length b - s1"
    using cp by (auto simp: copy_at_def Let_def seg_def split: if_splits)
  from copy_at_props [OF cp] inv have "length t2 = length b + 2"
    by simp
  with j1 s1 k have lt: "j1 + k < length t2"
    by linarith
  show ?thesis
    using assms(1,2) loop sl cp lt
    unfolding q_def e_def buf1_def t0_def spec_chosenQuote_def escapeAttrVal_def
      countQuotes_spec
    by (auto simp: Let_def)
qed

subsection \<open>The flag across tokens\<close>














subsection \<open>Empty raw-text elements\<close>

text \<open>
  C1, as the code has it: only for \<open>script\<close> and \<open>style\<close>. An opening script or style
  tag that is classified raw-text and not inline, has no attribute token after it, and has
  an end tag as the second token after it (the first is the token that closes the start
  tag) is consumed together with those two tokens, and nothing is written: Minify goes on
  with the third token after it, the sink untouched.
\<close>

theorem empty_script_style_elided:
  assumes "TokenType t = StartTagToken"
    and "Hash t = Script \<or> Hash t = Style"
    and "\<not> inlineTagMap env (Hash t)" and "rawTagMap env (Hash t)"
    and "TokenType (Peek tb 0) \<noteq> AttributeToken"
    and "TokenType (Peek tb 1) = EndTagToken"
  shows "MinifyLoop env zErr st w (t # tb) =
         MinifyLoop env zErr (st\<lparr>rawTag := NoHash, precededBySpace := True\<rparr>) w (drop 2 tb)"
proof -
  have "token env st w t tb =
        Inr (st\<lparr>rawTag := NoHash, precededBySpace := True\<rparr>, w, drop 2 tb)"
    using assms by (simp add: token_def tagToken_def Let_def Shift_Shift)
  then show ?thesis
    using assms(1) by (simp add: MinifyLoop_Cons)
qed

text \<open>The theorem at \<open><script></script>x\<close>.\<close>

theorem empty_script_style_elided_witness:
  "TokenType (startTag Script ''script'') = StartTagToken
   \<and> Hash (startTag Script ''script'') = Script
   \<and> \<not> inlineTagMap exampleEnv Script \<and> rawTagMap exampleEnv Script
   \<and> TokenType (Peek [tagClose, endTag Script ''script'', textTok ''x''] 0) \<noteq> AttributeToken
   \<and> TokenType (Peek [tagClose, endTag Script ''script'', textTok ''x''] 1) = EndTagToken
   \<and> MinifyLoop exampleEnv None initState []
        [startTag Script ''script'', tagClose, endTag Script ''script'', textTok ''x'']
       = MinifyLoop exampleEnv None initState [] [textTok ''x'']"
  using empty_script_style_elided [of "startTag Script ''script''" exampleEnv
          "[tagClose, endTag Script ''script'', textTok ''x'']" None initState "[]"]
  by (simp add: exampleEnv_def startTag_def endTag_def tagClose_def Peek_def initState_def)

text \<open>
  C1 as stated fails for \<open>iframe\<close>: \<open><iframe></iframe>\<close>, an opening raw-text tag with no
  attributes and its closing tag right after it, is written in full.
\<close>

theorem empty_iframe_is_written:
  "Minify exampleEnv None []
     [startTag Iframe ''iframe'', tagClose, endTag Iframe ''iframe'']
     = Inr ''<iframe></iframe>''"
  by code_simp

subsection \<open>The trailing space of a text token\<close>




subsection \<open>The choice of the quote character\<close>

text \<open>
  C3, as the code has it. Take a value that cannot be written unquoted and for which the
  original bytes are not reused, that is, not both counts are zero with the original two
  bytes longer. With quotes counted literal and as entities alike, whenever escapeAttrVal
  returns, its result begins and ends with a single quote when the doubles outnumber the
  singles, and with a double quote otherwise; and it does return whenever the value holds
  no literal occurrence of the quote so chosen.
\<close>

theorem quote_choice:
  assumes "spec_needsQuotes b"
    and "\<not> (spec_quoteCount squote b = 0 \<and> spec_quoteCount dquote b = 0
           \<and> length orig = length b + 2)"
  shows "(\<forall>buf' r. escapeAttrVal buf orig b = Some (buf', r) \<longrightarrow>
            2 \<le> length r \<and> hd r = spec_chosenQuote b \<and> last r = spec_chosenQuote b)
         \<and> (spec_chosenQuote b \<notin> set b \<longrightarrow>
              (\<exists>buf' r. escapeAttrVal buf orig b = Some (buf', r)))"
  using escapeAttrVal_wrapped [OF assms] escapeAttrVal_returns [OF assms]
  by blast

text \<open>The theorem at the value \<open>say "hi"\<close>, which comes out in single quotes.\<close>

theorem quote_choice_witness:
  "spec_needsQuotes (''say '' @ [dquote] @ ''hi'' @ [dquote])
   \<and> \<not> (spec_quoteCount squote (''say '' @ [dquote] @ ''hi'' @ [dquote]) = 0
        \<and> spec_quoteCount dquote (''say '' @ [dquote] @ ''hi'' @ [dquote]) = 0
        \<and> length ([squote] @ ''say '' @ [dquote] @ ''hi'' @ [dquote] @ [squote])
            = length (''say '' @ [dquote] @ ''hi'' @ [dquote]) + 2)
   \<and> escapeAttrVal [] ([squote] @ ''say '' @ [dquote] @ ''hi'' @ [dquote] @ [squote])
        (''say '' @ [dquote] @ ''hi'' @ [dquote])
       = Some ([squote] @ ''say '' @ [dquote] @ ''hi'' @ [dquote] @ [squote],
               [squote] @ ''say '' @ [dquote] @ ''hi'' @ [dquote] @ [squote])
   \<and> spec_chosenQuote (''say '' @ [dquote] @ ''hi'' @ [dquote]) = squote
   \<and> hd ([squote] @ ''say '' @ [dquote] @ ''hi'' @ [dquote] @ [squote])
       = spec_chosenQuote (''say '' @ [dquote] @ ''hi'' @ [dquote])"
proof -
  have h1: "spec_needsQuotes (''say '' @ [dquote] @ ''hi'' @ [dquote])"
    by code_simp
  have h2: "\<not> (spec_quoteCount squote (''say '' @ [dquote] @ ''hi'' @ [dquote]) = 0
        \<and> spec_quoteCount dquote (''say '' @ [dquote] @ ''hi'' @ [dquote]) = 0
        \<and> length ([squote] @ ''say '' @ [dquote] @ ''hi'' @ [dquote] @ [squote])
            = length (''say '' @ [dquote] @ ''hi'' @ [dquote]) + 2)"
    by code_simp
  have h3: "escapeAttrVal [] ([squote] @ ''say '' @ [dquote] @ ''hi'' @ [dquote] @ [squote])
        (''say '' @ [dquote] @ ''hi'' @ [dquote])
       = Some ([squote] @ ''say '' @ [dquote] @ ''hi'' @ [dquote] @ [squote],
               [squote] @ ''say '' @ [dquote] @ ''hi'' @ [dquote] @ [squote])"
    by code_simp
  have h4: "spec_chosenQuote (''say '' @ [dquote] @ ''hi'' @ [dquote]) = squote"
    by code_simp
  from quote_choice [OF h1 h2, where buf = "[]"] h1 h2 h3 h4 show ?thesis
    by blast
qed

text \<open>
  C3 as stated fails where the original bytes are reused: the value \<open>a b\<close> has no double
  and no single quote, so the claim asks for double quotes, and escapeAttrVal returns the
  original \<open>'a b'\<close>, in single quotes.
\<close>

theorem reused_original_keeps_single_quotes:
  "count_list ''a b'' dquote \<le> count_list ''a b'' squote
   \<and> escapeAttrVal [] ([squote] @ ''a b'' @ [squote]) ''a b''
       = Some ([], [squote] @ ''a b'' @ [squote])"
  by code_simp

subsection \<open>Comments\<close>

text \<open>
  C4, as the code has it: a comment token whose content begins with \<open>[if\<close> adds
  \<open><!--\<close>, the content and \<open>-->\<close> to the output; any other comment whose content ends
  with \<open>--\<close> adds \<open><!\<close>, the content and \<open>>\<close>; every other comment adds no byte.
  Nothing else changes, and Minify goes on with the next token.
\<close>

theorem comment_output:
  assumes "Write env = bufferWrite" and "TokenType t = CommentToken"
  shows "MinifyLoop env zErr st out (t # tb) =
         MinifyLoop env zErr st
           (out @ (if HasPrefix (the_bytes (Data t)) ''[if''
                   then ''<!--'' @ the_bytes (Data t) @ ''-->''
                   else if HasSuffix (the_bytes (Data t)) ''--''
                   then ''<!'' @ the_bytes (Data t) @ ''>''
                   else [])) tb"
proof -
  have "token env st out t tb = Inr (st, out @ commentBytes (the_bytes (Data t)), tb)"
    using assms by (simp add: token_def wWrite_def bufferWrite_def)
  then show ?thesis
    using assms(2) by (simp add: MinifyLoop_Cons commentBytes_def)
qed

text \<open>The theorem at a conditional comment followed by a plain one.\<close>

theorem comment_output_witness:
  "Write exampleEnv = bufferWrite
   \<and> TokenType (commentTok ''[if IE]>x'') = CommentToken
   \<and> MinifyLoop exampleEnv None initState [] [commentTok ''[if IE]>x'', commentTok ''note'']
       = MinifyLoop exampleEnv None initState ''<!--[if IE]>x-->'' [commentTok ''note'']
   \<and> MinifyLoop exampleEnv None initState [] [commentTok ''note'']
       = MinifyLoop exampleEnv None initState [] []"
  using comment_output [of exampleEnv "commentTok ''[if IE]>x''" None initState "[]"
          "[commentTok ''note'']"]
        comment_output [of exampleEnv "commentTok ''note''" None initState "[]" "[]"]
  by (simp add: exampleEnv_def commentTok_def HasPrefix_def HasSuffix_def the_bytes_def)

text \<open>
  C4 as stated fails for a comment that ends with \<open>--\<close> and does not begin with \<open>[if\<close>:
  the content \<open>x--\<close> is written as \<open><!x-->\<close>, not wrapped in \<open><!--\<close> and \<open>-->\<close>.
\<close>

theorem suffix_comment_not_rewrapped:
  "HasSuffix ''x--'' ''--''
   \<and> Minify exampleEnv None [] [commentTok ''x--''] = Inr ''<!x-->''
   \<and> ''<!x-->'' \<noteq> ''<!--'' @ ''x--'' @ ''-->''"
  by code_simp

subsection \<open>Reusing the original bytes\<close>

text \<open>
  C5, as the code has it: for a value that cannot be written unquoted, that holds no quote
  character, neither literal nor as a quote entity, and whose original bytes are exactly
  two bytes longer, escapeAttrVal returns the original bytes and leaves its buffer alone.
\<close>

theorem reuse_original:
  assumes "spec_needsQuotes b"
    and "spec_quoteCount squote b = 0" and "spec_quoteCount dquote b = 0"
    and "length orig = length b + 2"
  shows "escapeAttrVal buf orig b = Some (buf, orig)"
  using assms by (simp add: escapeAttrVal_def countQuotes_spec)

text \<open>The theorem at the value \<open>x=1\<close> with the original \<open>"x=1"\<close>.\<close>

theorem reuse_original_witness:
  "spec_needsQuotes ''x=1''
   \<and> spec_quoteCount squote ''x=1'' = 0 \<and> spec_quoteCount dquote ''x=1'' = 0
   \<and> length ([dquote] @ ''x=1'' @ [dquote]) = length ''x=1'' + 2
   \<and> escapeAttrVal ''scratch'' ([dquote] @ ''x=1'' @ [dquote]) ''x=1''
       = Some (''scratch'', [dquote] @ ''x=1'' @ [dquote])"
proof -
  have h1: "spec_needsQuotes ''x=1''"
    by code_simp
  have h2: "spec_quoteCount squote ''x=1'' = 0" and h3: "spec_quoteCount dquote ''x=1'' = 0"
    by code_simp+
  have h4: "length ([dquote] @ ''x=1'' @ [dquote]) = length ''x=1'' + 2"
    by simp
  from reuse_original [OF h1 h2 h3 h4, of "''scratch''"] h1 h2 h3 h4 show ?thesis
    by blast
qed

text \<open>
  C5 as stated fails for a value with a quote entity and no literal quote: \<open>a&#34;b\<close>
  holds no quote character, its original \<open>"a&#34;b"\<close> is two bytes longer, and
  escapeAttrVal returns \<open>'a"b'\<close>, not the original.
\<close>

theorem quote_entity_blocks_reuse:
  "dquote \<notin> set ''a&#34;b'' \<and> squote \<notin> set ''a&#34;b''
   \<and> length ([dquote] @ ''a&#34;b'' @ [dquote]) = length ''a&#34;b'' + 2
   \<and> map_option snd (escapeAttrVal [] ([dquote] @ ''a&#34;b'' @ [dquote]) ''a&#34;b'')
       = Some ([squote] @ ''a'' @ [dquote] @ ''b'' @ [squote])"
  by code_simp

subsection \<open>The content-type meta tag\<close>

text \<open>
  C6 (the code departs from it): on its own,
  \<open><meta http-equiv="Content-Type" content="text/html; charset=utf-8">\<close> becomes
  \<open><meta charset=utf-8>\<close>. After \<open><a rel=nofollow></a>\<close> the same tag keeps both
  attributes: getAttributes never clears the index buffer, the slot the anchor filled for
  \<open>rel\<close> is the slot of \<open>charset\<close> for the meta tag, and so Minify takes a \<open>charset\<close>
  attribute to be present.
\<close>

theorem meta_charset_missed_after_anchor:
  "Minify exampleEnv None []
     [startTag Meta ''meta'',
      attribute Http_Equiv ''http-equiv'' ([dquote] @ ''Content-Type'' @ [dquote]),
      attribute Content ''content'' ([dquote] @ ''text/html; charset=utf-8'' @ [dquote]),
      tagClose]
     = Inr ''<meta charset=utf-8>''
   \<and> Minify exampleEnv None []
       [startTag A_tag ''a'', attribute Rel ''rel'' ''nofollow'', tagClose,
        endTag A_tag ''a'',
        startTag Meta ''meta'',
        attribute Http_Equiv ''http-equiv'' ([dquote] @ ''Content-Type'' @ [dquote]),
        attribute Content ''content'' ([dquote] @ ''text/html; charset=utf-8'' @ [dquote]),
        tagClose]
     = Inr (''<a rel=nofollow></a><meta http-equiv=content-type content='' @ [dquote]
            @ ''text/html;charset=utf-8'' @ [dquote] @ ''>'')"
  by code_simp

subsection \<open>Text inside a raw-text element\<close>

text \<open>
  C7, as the code has it. Take a text token while a raw-text element is open. For an
  element that has no media type of its own the content is written as it is. For
  \<open>style\<close>, \<open>script\<close>, \<open>iframe\<close>, \<open>svg\<close> and \<open>math\<close> the registry is asked under the
  effective media type. Unless that type is \<open>text/html\<close> and the content, trimmed of
  whitespace, is longer than twelve bytes and wrapped in \<open><![CDATA[\<close> and \<open>]]>\<close>, the
  registry gets the content of the token: if it has no minifier registered, that content
  is written unmodified and Minify goes on with the next token, the state unchanged; if
  it answers with any other error, Minify returns that error. For wrapped content the
  marker is written first and the registry gets the trimmed content after the marker: if
  it has no minifier registered, that rest is written, so that the sink has received the
  trimmed content, not the content of the token, and Minify goes on; any other error is
  returned.
\<close>

theorem raw_text_passthrough:
  assumes "TokenType t = TextToken" and "rawTag st \<noteq> NoHash"
    and "data = the_bytes (Data t)" and "trimmed = Trim data IsWhitespace"
    and "wrapped = (mediatypeOf st = ''text/html'' \<and> length trimmed > 12
                    \<and> take 9 trimmed = ''<![CDATA[''
                    \<and> drop (length trimmed - 3) trimmed = '']]>'')"
    and "dispatched = (rawTag st = Style \<or> rawTag st = Script \<or> rawTag st = Iframe
                       \<or> rawTag st = Svg \<or> rawTag st = Math)"
  shows "(\<not> dispatched \<longrightarrow>
            MinifyLoop env zErr st w (t # tb) =
              (case wWrite env w data of
                 Inl f \<Rightarrow> Inl f
               | Inr w' \<Rightarrow> MinifyLoop env zErr st w' tb))
       \<and> (dispatched \<and> \<not> wrapped \<and> MinifyM env (mediatypeOf st) data = Inl e \<longrightarrow>
            MinifyLoop env zErr st w (t # tb) =
              (if e = ErrNotExist then
                 (case wWrite env w data of
                    Inl f \<Rightarrow> Inl f
                  | Inr w' \<Rightarrow> MinifyLoop env zErr st w' tb)
               else Inl (Failure e)))
       \<and> (dispatched \<and> wrapped \<and> MinifyM env (mediatypeOf st) (drop 9 trimmed) = Inl e \<longrightarrow>
            MinifyLoop env zErr st w (t # tb) =
              (case wWrite env w ''<![CDATA['' of
                 Inl f \<Rightarrow> Inl f
               | Inr w1 \<Rightarrow>
                   (if e = ErrNotExist then
                      (case wWrite env w1 (drop 9 trimmed) of
                         Inl f \<Rightarrow> Inl f
                       | Inr w' \<Rightarrow> MinifyLoop env zErr st w' tb)
                    else Inl (Failure e))))
       \<and> (wrapped \<longrightarrow> ''<![CDATA['' @ drop 9 trimmed = trimmed)"
proof -
  have tok: "TokenType t \<noteq> ErrorToken"
    using assms(1) by simp
  have strip: "cdataStrip env (mediatypeOf st) w data =
        (if wrapped then
           (case wWrite env w ''<![CDATA['' of
              Inl f \<Rightarrow> Inl f
            | Inr w1 \<Rightarrow> Inr (w1, drop 9 trimmed))
         else Inr (w, data))"
    unfolding cdataStrip_def Let_def assms(4) [symmetric] assms(5)
    by simp
  have step: "token env st w t tb =
        (case rawText env st w data of Inl f \<Rightarrow> Inl f | Inr w' \<Rightarrow> Inr (st, w', tb))"
    using assms(1,2) by (simp add: token_def textToken_def assms(3) split: sum.splits)
  have a: "\<not> dispatched \<longrightarrow>
            MinifyLoop env zErr st w (t # tb) =
              (case wWrite env w data of
                 Inl f \<Rightarrow> Inl f
               | Inr w' \<Rightarrow> MinifyLoop env zErr st w' tb)"
    using assms(6) by (auto simp: MinifyLoop_Cons [OF tok] step rawText_def split: sum.splits)
  have b: "dispatched \<and> \<not> wrapped \<and> MinifyM env (mediatypeOf st) data = Inl e \<longrightarrow>
            MinifyLoop env zErr st w (t # tb) =
              (if e = ErrNotExist then
                 (case wWrite env w data of
                    Inl f \<Rightarrow> Inl f
                  | Inr w' \<Rightarrow> MinifyLoop env zErr st w' tb)
               else Inl (Failure e))"
    using assms(6)
    by (auto simp: MinifyLoop_Cons [OF tok] step rawText_def strip split: sum.splits)
  have c: "dispatched \<and> wrapped \<and> MinifyM env (mediatypeOf st) (drop 9 trimmed) = Inl e \<longrightarrow>
            MinifyLoop env zErr st w (t # tb) =
              (case wWrite env w ''<![CDATA['' of
                 Inl f \<Rightarrow> Inl f
               | Inr w1 \<Rightarrow>
                   (if e = ErrNotExist then
                      (case wWrite env w1 (drop 9 trimmed) of
                         Inl f \<Rightarrow> Inl f
                       | Inr w' \<Rightarrow> MinifyLoop env zErr st w' tb)
                    else Inl (Failure e)))"
    using assms(6)
    by (auto simp: MinifyLoop_Cons [OF tok] step rawText_def strip split: sum.splits)
  have d: "wrapped \<longrightarrow> ''<![CDATA['' @ drop 9 trimmed = trimmed"
    unfolding assms(5) by (metis append_take_drop_id)
  from a b c d show ?thesis
    by blast
qed

text \<open>
  The theorem at the text \<open>a  b\<close> inside \<open>script\<close>, with no minifier registered and with
  a registry that fails, and at wrapped content inside \<open>iframe\<close>.
\<close>

theorem raw_text_passthrough_witness:
  "TokenType (textTok ''a  b'') = TextToken
   \<and> rawTag (initState\<lparr>rawTag := Script\<rparr>) \<noteq> NoHash
   \<and> MinifyLoop exampleEnv None (initState\<lparr>rawTag := Script\<rparr>) [] [textTok ''a  b'']
       = Inr ''a  b''
   \<and> MinifyLoop failingEnv None (initState\<lparr>rawTag := Script\<rparr>) [] [textTok ''a  b'']
       = Inl (Failure (Err 1))
   \<and> MinifyLoop exampleEnv None (initState\<lparr>rawTag := Iframe\<rparr>) []
        [textTok '' <![CDATA[ x ]]> '']
       = Inr ''<![CDATA[ x ]]>''"
proof -
  have h1: "TokenType (textTok ''a  b'') = TextToken"
    and k1: "TokenType (textTok '' <![CDATA[ x ]]> '') = TextToken"
    by (simp_all add: textTok_def)
  have h2: "rawTag (initState\<lparr>rawTag := Script\<rparr>) \<noteq> NoHash"
    and k2: "rawTag (initState\<lparr>rawTag := Iframe\<rparr>) \<noteq> NoHash"
    by simp_all
  have h3: "''a  b'' = the_bytes (Data (textTok ''a  b''))"
    and k3: "'' <![CDATA[ x ]]> '' = the_bytes (Data (textTok '' <![CDATA[ x ]]> ''))"
    by (simp_all add: textTok_def the_bytes_def)
  have h4: "''a  b'' = Trim ''a  b'' IsWhitespace"
    and k4: "''<![CDATA[ x ]]>'' = Trim '' <![CDATA[ x ]]> '' IsWhitespace"
    by code_simp+
  have h5: "False = (mediatypeOf (initState\<lparr>rawTag := Script\<rparr>) = ''text/html''
                     \<and> length ''a  b'' > 12 \<and> take 9 ''a  b'' = ''<![CDATA[''
                     \<and> drop (length ''a  b'' - 3) ''a  b'' = '']]>'')"
    by simp
  have k5: "True = (mediatypeOf (initState\<lparr>rawTag := Iframe\<rparr>) = ''text/html''
                     \<and> length ''<![CDATA[ x ]]>'' > 12
                     \<and> take 9 ''<![CDATA[ x ]]>'' = ''<![CDATA[''
                     \<and> drop (length ''<![CDATA[ x ]]>'' - 3) ''<![CDATA[ x ]]>'' = '']]>'')"
    by (simp add: mediatypeOf_def)
  have h6: "True = (rawTag (initState\<lparr>rawTag := Script\<rparr>) = Style
                    \<or> rawTag (initState\<lparr>rawTag := Script\<rparr>) = Script
                    \<or> rawTag (initState\<lparr>rawTag := Script\<rparr>) = Iframe
                    \<or> rawTag (initState\<lparr>rawTag := Script\<rparr>) = Svg
                    \<or> rawTag (initState\<lparr>rawTag := Script\<rparr>) = Math)"
    and k6: "True = (rawTag (initState\<lparr>rawTag := Iframe\<rparr>) = Style
                    \<or> rawTag (initState\<lparr>rawTag := Iframe\<rparr>) = Script
                    \<or> rawTag (initState\<lparr>rawTag := Iframe\<rparr>) = Iframe
                    \<or> rawTag (initState\<lparr>rawTag := Iframe\<rparr>) = Svg
                    \<or> rawTag (initState\<lparr>rawTag := Iframe\<rparr>) = Math)"
    by simp_all
  have a: "MinifyLoop exampleEnv None (initState\<lparr>rawTag := Script\<rparr>) [] [textTok ''a  b'']
             = Inr ''a  b''"
    using raw_text_passthrough [OF h1 h2 h3 h4 h5 h6, where env = exampleEnv
            and e = ErrNotExist and zErr = None and w = "[]" and tb = "[]"]
    by (simp add: exampleEnv_def noMinifier_def wWrite_def bufferWrite_def MinifyLoop_Nil)
  have b: "MinifyLoop failingEnv None (initState\<lparr>rawTag := Script\<rparr>) [] [textTok ''a  b'']
             = Inl (Failure (Err 1))"
    using raw_text_passthrough [OF h1 h2 h3 h4 h5 h6, where env = failingEnv
            and e = "Err 1" and zErr = None and w = "[]" and tb = "[]"]
    by (simp add: failingEnv_def)
  have c: "MinifyLoop exampleEnv None (initState\<lparr>rawTag := Iframe\<rparr>) []
             [textTok '' <![CDATA[ x ]]> ''] = Inr ''<![CDATA[ x ]]>''"
    using raw_text_passthrough [OF k1 k2 k3 k4 k5 k6, where env = exampleEnv
            and e = ErrNotExist and zErr = None and w = "[]" and tb = "[]"]
    by (simp add: exampleEnv_def noMinifier_def wWrite_def bufferWrite_def MinifyLoop_Nil)
  from h1 h2 a b c show ?thesis
    by blast
qed

text \<open>
  C7 as stated fails for wrapped content with whitespace around it: inside \<open>iframe\<close>,
  with no minifier registered, the text \<open> <![CDATA[ x ]]> \<close> reaches the sink without
  its first and last space.
\<close>

theorem cdata_content_is_trimmed:
  "Minify exampleEnv None []
     [startTag Iframe ''iframe'', tagClose, textTok '' <![CDATA[ x ]]> '',
      endTag Iframe ''iframe'']
     = Inr ''<iframe><![CDATA[ x ]]></iframe>''
   \<and> ''<iframe><![CDATA[ x ]]></iframe>'' \<noteq> ''<iframe> <![CDATA[ x ]]> </iframe>''"
  by code_simp

subsection \<open>Minifying the output again\<close>

text \<open>
  C8 (the code departs from it): \<open><script type="text/javascript"></script>\<close> has an
  attribute, so the empty element is not left out; the attribute holds the default type
  and is dropped, and the output is \<open><script></script>\<close>. The tokens of that output are
  the start tag, the token that closes it and the end tag, for which Minify writes
  nothing: minifying the output again does not give the output back.
\<close>

theorem emptied_script_not_a_fixed_point:
  "Minify exampleEnv None []
     [startTag Script ''script'',
      attribute Type ''type'' ([dquote] @ ''text/javascript'' @ [dquote]),
      tagClose, endTag Script ''script'']
     = Inr ''<script></script>''
   \<and> Minify exampleEnv None []
       [startTag Script ''script'', tagClose, endTag Script ''script'']
     = Inr []"
  by code_simp

subsection \<open>The buffer of escapeAttrVal\<close>

text \<open>
  C9 (the code departs from it): the buffer has \<open>len(b) + 2\<close> bytes, and a literal
  occurrence of the chosen quote takes five bytes in it. For the value \<open>x"'\<close> the double
  quote is chosen, the copy of \<open>&#34;\<close> is cut short at the end of the buffer, the write
  position reaches the length of the buffer and the final \<open>t[j] = quote\<close> is out of
  range: escapeAttrVal panics, and so does Minify on \<open><form title=x"'>\<close>.
\<close>

theorem escapeAttrVal_overruns_buffer:
  "escapeAttrVal (replicate 64 (CHR 0x00)) (''x'' @ [dquote, squote]) (''x'' @ [dquote, squote])
     = None
   \<and> Minify exampleEnv None []
       [startTag Form ''form'', attribute Title ''title'' (''x'' @ [dquote, squote]), tagClose]
     = Inl Panic"
  by code_simp

subsection \<open>Unwrapping in both passes\<close>

text \<open>
  C10 (the code departs from it): the value \<open>'"ab'\<close> of a \<open>name\<close> attribute stands for
  \<open>"ab\<close>. On a \<open>form\<close> tag, whose attributes getAttributes does not fetch, it is written
  back as \<open>'"ab'\<close>. On an anchor getAttributes unwraps it to \<open>"ab\<close>, the loop that writes
  the attributes unwraps that again, and \<open>name=a\<close> is written.
\<close>

theorem anchor_value_unwrapped_twice:
  "Minify exampleEnv None []
     [startTag A_tag ''a'', attribute Name ''name'' ([squote, dquote] @ ''ab'' @ [squote]),
      tagClose]
     = Inr ''<a name=a>''
   \<and> Minify exampleEnv None []
       [startTag Form ''form'', attribute Name ''name'' ([squote, dquote] @ ''ab'' @ [squote]),
        tagClose]
     = Inr (''<form name='' @ [squote, dquote] @ ''ab'' @ [squote] @ ''>'')"
  by code_simp

end
